theory Spec2Isabelle
  imports Main "HOL-Library.Word"
begin

unbundle bit_operations_syntax

section \<open>The configuration record\<close>

text \<open>
  \<^verbatim>\<open>struct DiceConfig\<close> (DiceConfigManager.h, lines 16-34). The checksum of the program is
  an XOR over the raw memory of the object, so the record is modelled as the object
  representation the ESP32 toolchain gives it (32-bit, little-endian, \<^verbatim>\<open>float\<close> and
  \<^verbatim>\<open>uint32_t\<close> aligned to 4 bytes, \<^verbatim>\<open>uint16_t\<close> to 2, no packing attribute):

  \<^item> 0..15 \<^verbatim>\<open>diceId[16]\<close>, 16..21 \<^verbatim>\<open>deviceA_mac\<close>, 22..27 \<^verbatim>\<open>deviceB1_mac\<close>,
    28..33 \<^verbatim>\<open>deviceB2_mac\<close>;
  \<^item> 34..43 the five 16-bit colours;
  \<^item> 44 \<^verbatim>\<open>rssiLimit\<close>, 45 \<^verbatim>\<open>isSMD\<close>, 46 \<^verbatim>\<open>isNano\<close>, 47 \<^verbatim>\<open>alwaysSeven\<close>,
    48 \<^verbatim>\<open>randomSwitchPoint\<close>;
  \<^item> 49..51 padding (the \<^verbatim>\<open>float\<close> that follows starts at a multiple of 4);
  \<^item> 52..55 \<^verbatim>\<open>tumbleConstant\<close>, 56..59 \<^verbatim>\<open>deepSleepTimeout\<close>;
  \<^item> 60 \<^verbatim>\<open>checksum\<close>;
  \<^item> 61..63 padding (the size is a multiple of the alignment 4), so \<^verbatim>\<open>sizeof(DiceConfig)\<close> is 64.

  The values of padding bytes are not fixed by the language; they are part of the object
  and so of the record (\<open>pad_mid\<close>, \<open>pad_tail\<close>). \<open>diceId\<close> is the whole 16-byte
  buffer, the bytes after the terminating NUL included. \<open>rssiLimit\<close> is the byte of the
  \<^verbatim>\<open>int8_t\<close> (read it with \<open>sint\<close>); \<open>tumbleConstant\<close> is the IEEE-754 binary32 bit
  pattern of the \<^verbatim>\<open>float\<close>.
\<close>

type_synonym u8 = "8 word"
type_synonym u16 = "16 word"
type_synonym u32 = "32 word"

record DiceConfig =
  diceId :: string
  deviceA_mac :: "u8 list"
  deviceB1_mac :: "u8 list"
  deviceB2_mac :: "u8 list"
  x_background :: u16
  y_background :: u16
  z_background :: u16
  entang_ab1_color :: u16
  entang_ab2_color :: u16
  rssiLimit :: u8
  isSMD :: bool
  isNano :: bool
  alwaysSeven :: bool
  randomSwitchPoint :: u8
  pad_mid :: "u8 list"
  tumbleConstant :: u32
  deepSleepTimeout :: u32
  checksum :: u8
  pad_tail :: "u8 list"

text \<open>The array bounds of the struct: what every object of the type satisfies.\<close>

definition wf_config :: "DiceConfig \<Rightarrow> bool" where
  "wf_config c =
     (length (diceId c) = 16 \<and> length (deviceA_mac c) = 6 \<and> length (deviceB1_mac c) = 6 \<and>
      length (deviceB2_mac c) = 6 \<and> length (pad_mid c) = 3 \<and> length (pad_tail c) = 3)"

abbreviation NUL :: char where
  "NUL \<equiv> CHR 0x00"

definition le_bytes16 :: "u16 \<Rightarrow> u8 list" where
  "le_bytes16 w = [ucast w, ucast (drop_bit 8 w)]"

definition le_bytes32 :: "u32 \<Rightarrow> u8 list" where
  "le_bytes32 w = [ucast w, ucast (drop_bit 8 w), ucast (drop_bit 16 w), ucast (drop_bit 24 w)]"

definition bool_byte :: "bool \<Rightarrow> u8" where
  "bool_byte b = (if b then 1 else 0)"

definition object_bytes :: "DiceConfig \<Rightarrow> u8 list" where
  "object_bytes c =
     map of_char (diceId c) @ deviceA_mac c @ deviceB1_mac c @ deviceB2_mac c @
     le_bytes16 (x_background c) @ le_bytes16 (y_background c) @ le_bytes16 (z_background c) @
     le_bytes16 (entang_ab1_color c) @ le_bytes16 (entang_ab2_color c) @
     [rssiLimit c, bool_byte (isSMD c), bool_byte (isNano c), bool_byte (alwaysSeven c),
      randomSwitchPoint c] @
     pad_mid c @
     le_bytes32 (tumbleConstant c) @ le_bytes32 (deepSleepTimeout c) @
     [checksum c] @
     pad_tail c"

definition sizeof_DiceConfig :: nat where
  "sizeof_DiceConfig = 64"

section \<open>C strings in fixed buffers\<close>

text \<open>
  The string a buffer holds ends before its first NUL. \<open>strncpy_bytes n src\<close> is what
  \<^verbatim>\<open>strncpy(dst, src, n)\<close> writes: the first \<open>n\<close> characters of \<open>src\<close>, padded with NUL
  up to \<open>n\<close> bytes.
\<close>

definition cstr :: "string \<Rightarrow> string" where
  "cstr buf = takeWhile (\<lambda>ch. ch \<noteq> NUL) buf"

definition strlen :: "string \<Rightarrow> nat" where
  "strlen buf = length (cstr buf)"

definition strncpy_bytes :: "nat \<Rightarrow> string \<Rightarrow> string" where
  "strncpy_bytes n src = take n (cstr src) @ replicate (n - length (cstr src)) NUL"

section \<open>Integrity checker\<close>

text \<open>
  \<^verbatim>\<open>calculateChecksum\<close> (DiceConfigManager.cpp, lines 504-514): the loop runs over the
  bytes at offsets \<open>0 .. sizeof(DiceConfig) - 2\<close> of the object and stores the XOR in
  the checksum field.
\<close>

definition calculateChecksum :: "DiceConfig \<Rightarrow> DiceConfig" where
  "calculateChecksum config =
     config\<lparr>checksum := foldl (\<lambda>sum b. sum XOR b) 0
                (take (sizeof_DiceConfig - 1) (object_bytes config))\<rparr>"

text \<open>
  \<^verbatim>\<open>validateChecksum\<close> (lines 516-521): copies the object, recomputes on the copy and
  compares with the checksum the copy held before.
\<close>

definition validateChecksum :: "DiceConfig \<Rightarrow> bool" where
  "validateChecksum config =
     (let temp = config;
          originalChecksum = checksum temp;
          temp2 = calculateChecksum temp
      in checksum temp2 = originalChecksum)"

text \<open>
  The checksum as the specification words it: the XOR of the bytes of every field but
  the checksum, in the declared order.
\<close>

definition field_bytes :: "DiceConfig \<Rightarrow> u8 list" where
  "field_bytes c =
     map of_char (diceId c) @ deviceA_mac c @ deviceB1_mac c @ deviceB2_mac c @
     le_bytes16 (x_background c) @ le_bytes16 (y_background c) @ le_bytes16 (z_background c) @
     le_bytes16 (entang_ab1_color c) @ le_bytes16 (entang_ab2_color c) @
     [rssiLimit c, bool_byte (isSMD c), bool_byte (isNano c), bool_byte (alwaysSeven c),
      randomSwitchPoint c] @
     le_bytes32 (tumbleConstant c) @ le_bytes32 (deepSleepTimeout c)"

definition spec_compute :: "DiceConfig \<Rightarrow> u8" where
  "spec_compute c = foldl (\<lambda>sum b. sum XOR b) 0 (field_bytes c)"

section \<open>Default policy\<close>

text \<open>
  \<^verbatim>\<open>initDefaultConfig\<close> (lines 531-562). \<^verbatim>\<open>strcpy(_config.diceId, "DEFAULT")\<close> writes
  eight bytes and leaves bytes 8..15 of the buffer as they were; padding is not written.
\<close>

definition initDefaultConfig :: "DiceConfig \<Rightarrow> DiceConfig" where
  "initDefaultConfig c =
     c\<lparr>diceId := ''DEFAULT'' @ [NUL] @ drop 8 (diceId c),
       deviceA_mac := replicate 6 0,
       deviceB1_mac := replicate 6 0,
       deviceB2_mac := replicate 6 0,
       x_background := 0xF800,
       y_background := 0x07E0,
       z_background := 0x001F,
       entang_ab1_color := 0xFFFF,
       entang_ab2_color := 0x0000,
       rssiLimit := - 70,
       isSMD := False,
       isNano := False,
       alwaysSeven := False,
       randomSwitchPoint := 50,
       tumbleConstant := 0x40200000,
       deepSleepTimeout := 300000,
       checksum := 0\<rparr>"

text \<open>
  An object in static storage is zero-initialised before its constructor runs: the
  memory a global \<^verbatim>\<open>DiceConfigManager\<close> starts from.
\<close>

definition zero_object :: DiceConfig where
  "zero_object =
     \<lparr>diceId = replicate 16 NUL,
      deviceA_mac = replicate 6 0, deviceB1_mac = replicate 6 0, deviceB2_mac = replicate 6 0,
      x_background = 0, y_background = 0, z_background = 0,
      entang_ab1_color = 0, entang_ab2_color = 0,
      rssiLimit = 0, isSMD = False, isNano = False, alwaysSeven = False,
      randomSwitchPoint = 0, pad_mid = replicate 3 0,
      tumbleConstant = 0, deepSleepTimeout = 0, checksum = 0, pad_tail = replicate 3 0\<rparr>"

section \<open>Comparing a binary32 value with zero\<close>

text \<open>
  \<^verbatim>\<open>_config.tumbleConstant <= 0\<close> converts the \<^verbatim>\<open>0\<close> to \<^verbatim>\<open>0.0f\<close> and compares as
  IEEE-754 does: a NaN (exponent all ones, fraction not zero) compares false with
  everything; otherwise the value is at most zero when it is a zero of either sign or
  its sign bit is set.
\<close>

definition float_is_nan :: "u32 \<Rightarrow> bool" where
  "float_is_nan w = (0x7F800000 < (w AND 0x7FFFFFFF))"

definition float_le_zero :: "u32 \<Rightarrow> bool" where
  "float_le_zero w = (\<not> float_is_nan w \<and> (w AND 0x7FFFFFFF = 0 \<or> bit w 31))"

definition float_gt_zero :: "u32 \<Rightarrow> bool" where
  "float_gt_zero w = (\<not> float_is_nan w \<and> w AND 0x7FFFFFFF \<noteq> 0 \<and> \<not> bit w 31)"

section \<open>The manager\<close>

text \<open>
  The private state of \<^verbatim>\<open>class DiceConfigManager\<close>. \<^verbatim>\<open>_verbose\<close> only selects what is
  printed on the serial console and is left out; \<open>_configPath\<close> and \<open>_lastError\<close> are
  the strings their buffers hold.
\<close>

record manager =
  config_of :: DiceConfig
  configPath :: string
  lastError :: string

text \<open>\<^verbatim>\<open>setError\<close> (lines 523-529): the message, cut to the 127 characters the buffer holds.\<close>

definition setError :: "string \<Rightarrow> manager \<Rightarrow> manager" where
  "setError msg s = s\<lparr>lastError := take 127 msg\<rparr>"

text \<open>The constructor (lines 8-13), on the memory \<open>mem\<close> the object is built in.\<close>

definition new_manager :: "DiceConfig \<Rightarrow> manager" where
  "new_manager mem =
     \<lparr>config_of = initDefaultConfig mem, configPath = ''/config.txt'', lastError = ''''\<rparr>"

text \<open>\<^verbatim>\<open>setDefaults\<close> (lines 271-276).\<close>

definition setDefaults :: "manager \<Rightarrow> manager" where
  "setDefaults s = s\<lparr>config_of := initDefaultConfig (config_of s)\<rparr>"

text \<open>
  \<^verbatim>\<open>validate\<close> (lines 279-307): four checks, each of which can only clear \<open>valid\<close>.
  \<^verbatim>\<open>strlen(_config.diceId) == 0\<close> holds exactly when the first byte of the buffer is NUL.
\<close>

definition validate :: "manager \<Rightarrow> bool" where
  "validate s =
     (let c = config_of s;
          valid = True;
          valid = (if strlen (diceId c) = 0 then False else valid);
          valid = (if 100 < unat (randomSwitchPoint c) then False else valid);
          valid = (if float_le_zero (tumbleConstant c) then False else valid);
          valid = (if checksum c \<noteq> 0 \<and> \<not> validateChecksum c then False else valid)
      in valid)"

section \<open>The C library, as far as the program calls it\<close>

text \<open>
  The functions below are not code of the repository; they are written after the C
  standard and newlib, the C library of the ESP32 toolchain (\<^verbatim>\<open>long\<close> and \<^verbatim>\<open>int\<close> have
  32 bits). \<open>isspace\<close> and \<open>tolower\<close> are those of the C locale.
\<close>

definition isspace :: "char \<Rightarrow> bool" where
  "isspace ch = (ch = CHR '' '' \<or> ch = CHR 0x09 \<or> ch = CHR 0x0A \<or> ch = CHR 0x0B \<or>
                 ch = CHR 0x0C \<or> ch = CHR 0x0D)"

definition tolower :: "char \<Rightarrow> char" where
  "tolower ch = (let n = (of_char ch :: nat) in if 65 \<le> n \<and> n \<le> 90 then char_of (n + 32) else ch)"

text \<open>
  The value of a digit in \<^verbatim>\<open>strtoul\<close> and \<^verbatim>\<open>strtol\<close>: decimal digits, then letters of
  either case from 10 on; a character is a digit of the base when its value is below it.
\<close>

definition digit_val :: "char \<Rightarrow> nat option" where
  "digit_val ch =
     (let n = (of_char ch :: nat) in
      if 48 \<le> n \<and> n \<le> 57 then Some (n - 48)
      else if 97 \<le> n \<and> n \<le> 122 then Some (n - 87)
      else if 65 \<le> n \<and> n \<le> 90 then Some (n - 55)
      else None)"

definition digit_in :: "nat \<Rightarrow> char \<Rightarrow> nat option" where
  "digit_in base ch =
     (case digit_val ch of None \<Rightarrow> None | Some d \<Rightarrow> if d < base then Some d else None)"

text \<open>The longest run of digits of the base, its value (not yet bounded) and what follows.\<close>

fun digits_value :: "nat \<Rightarrow> int \<Rightarrow> string \<Rightarrow> int \<times> string" where
  "digits_value base acc [] = (acc, [])"
| "digits_value base acc (ch # cs) =
     (case digit_in base ch of
        None \<Rightarrow> (acc, ch # cs)
      | Some d \<Rightarrow> digits_value base (acc * int base + int d) cs)"

definition take_sign :: "string \<Rightarrow> bool \<times> string" where
  "take_sign str =
     (case str of
        [] \<Rightarrow> (False, [])
      | ch # cs \<Rightarrow> if ch = CHR ''-'' then (True, cs) else if ch = CHR ''+'' then (False, cs)
                 else (False, str))"

text \<open>
  \<^verbatim>\<open>strtoul(str, NULL, 0)\<close>: white space, an optional sign, \<^verbatim>\<open>0x\<close> or \<^verbatim>\<open>0X\<close> for base 16,
  a leading \<^verbatim>\<open>0\<close> for base 8, base 10 otherwise; a value beyond \<^verbatim>\<open>ULONG_MAX\<close> gives
  \<^verbatim>\<open>ULONG_MAX\<close>, a minus sign negates in the unsigned type; no digits give 0.
\<close>

definition strtoul0 :: "string \<Rightarrow> u32" where
  "strtoul0 str =
     (let (neg, s2) = take_sign (dropWhile isspace str);
          (base, s3) =
             (case s2 of
                [] \<Rightarrow> (10, s2)
              | c0 # r0 \<Rightarrow>
                  if c0 = CHR ''0'' \<and> r0 \<noteq> [] \<and> (hd r0 = CHR ''x'' \<or> hd r0 = CHR ''X'')
                  then (16, tl r0)
                  else if c0 = CHR ''0'' then (8, s2) else (10, s2));
          v = fst (digits_value base 0 s3)
      in if 0xFFFFFFFF < v then 0xFFFFFFFF
         else if neg then - word_of_int v else word_of_int v)"

text \<open>
  \<^verbatim>\<open>atoi(str)\<close>, which newlib defines as \<^verbatim>\<open>(int) strtol(str, NULL, 10)\<close>: white space, an
  optional sign, decimal digits; out of range gives \<^verbatim>\<open>LONG_MAX\<close> or \<^verbatim>\<open>LONG_MIN\<close>; no digits
  give 0.
\<close>

definition atoi :: "string \<Rightarrow> int" where
  "atoi str =
     (let (neg, s2) = take_sign (dropWhile isspace str);
          v = fst (digits_value 10 0 s2)
      in if neg then (if 2147483648 < v then - 2147483648 else - v)
         else (if 2147483647 < v then 2147483647 else v))"

text \<open>
  \<^verbatim>\<open>atof(str)\<close>, converted to \<^verbatim>\<open>float\<close> by the assignment. Whether a conversion takes place
  is decided as \<^verbatim>\<open>strtod\<close> does: after white space and an optional sign there is a digit,
  a point followed by a digit, or \<^verbatim>\<open>inf\<close> or \<^verbatim>\<open>nan\<close> in any case. Without a conversion the
  result is zero. The rounding of a converted number to binary32 is not modelled: it is
  the parameter \<open>conv\<close>.
\<close>

definition strtod_subject :: "string \<Rightarrow> bool" where
  "strtod_subject str =
     (let s2 = snd (take_sign (dropWhile isspace str)) in
      case s2 of
        [] \<Rightarrow> False
      | c0 # r0 \<Rightarrow>
          digit_in 10 c0 \<noteq> None \<or>
          (c0 = CHR ''.'' \<and> r0 \<noteq> [] \<and> digit_in 10 (hd r0) \<noteq> None) \<or>
          map tolower (take 3 s2) = ''inf'' \<or> map tolower (take 3 s2) = ''nan'')"

definition atof :: "(string \<Rightarrow> u32) \<Rightarrow> string \<Rightarrow> u32" where
  "atof conv str = (if strtod_subject str then conv str else 0)"

text \<open>
  One \<^verbatim>\<open>%x\<close> of \<^verbatim>\<open>sscanf\<close>, as newlib scans it: white space is skipped; a sign is accepted;
  \<^verbatim>\<open>0x\<close> is a prefix only at the very start of the item (not after a sign) and only when a
  hexadecimal digit follows, otherwise the \<^verbatim>\<open>x\<close> stays in the input; at least one digit is
  needed. The item is converted as \<^verbatim>\<open>strtoul\<close> with base 16 does. The result is the value
  and the rest of the input.
\<close>

definition scan_x :: "string \<Rightarrow> (u32 \<times> string) option" where
  "scan_x str =
     (let s1 = dropWhile isspace str;
          (neg, s2) = take_sign s1;
          s3 = (case s2 of
                  [] \<Rightarrow> s2
                | c0 # r0 \<Rightarrow>
                    if s2 = s1 \<and> c0 = CHR ''0'' \<and> r0 \<noteq> [] \<and>
                       (hd r0 = CHR ''x'' \<or> hd r0 = CHR ''X'') \<and>
                       tl r0 \<noteq> [] \<and> digit_in 16 (hd (tl r0)) \<noteq> None
                    then tl r0 else s2);
          (v, rest) = digits_value 16 0 s3
      in if rest = s3 then None
         else Some (if 0xFFFFFFFF < v then 0xFFFFFFFF
                    else if neg then - word_of_int v else word_of_int v, rest))"

text \<open>The five \<^verbatim>\<open>:%x\<close> that follow the first conversion: the colon has to be the next character.\<close>

fun scan_colon_x :: "nat \<Rightarrow> string \<Rightarrow> u32 list option" where
  "scan_colon_x 0 str = Some []"
| "scan_colon_x (Suc n) [] = None"
| "scan_colon_x (Suc n) (ch # cs) =
     (if ch = CHR '':'' then
        (case scan_x cs of
           None \<Rightarrow> None
         | Some (v, rest) \<Rightarrow>
             (case scan_colon_x n rest of None \<Rightarrow> None | Some vs \<Rightarrow> Some (v # vs)))
      else None)"

section \<open>Text codec: the sub-parsers\<close>

text \<open>
  \<^verbatim>\<open>parseMacAddress\<close> (lines 469-480): the six bytes when \<^verbatim>\<open>sscanf\<close> converts six items,
  \<open>None\<close> (the array is not written) otherwise.
\<close>

definition parseMacAddress :: "string \<Rightarrow> u8 list option" where
  "parseMacAddress str =
     (case scan_x str of
        None \<Rightarrow> None
      | Some (v, rest) \<Rightarrow>
          (case scan_colon_x 5 rest of
             None \<Rightarrow> None
           | Some vs \<Rightarrow> Some (map ucast (v # vs))))"

text \<open>\<^verbatim>\<open>parseBool\<close> (lines 482-487).\<close>

definition parseBool :: "string \<Rightarrow> bool" where
  "parseBool str = (if map tolower str = ''true'' \<or> str = ''1'' then True else False)"

text \<open>
  \<^verbatim>\<open>trim\<close> (lines 489-502): leading white space is skipped; the backward loop stops at the
  first character, which it never removes.
\<close>

definition trim :: "string \<Rightarrow> string" where
  "trim str =
     (case dropWhile isspace str of
        [] \<Rightarrow> []
      | ch # cs \<Rightarrow> ch # rev (dropWhile isspace (rev cs)))"

section \<open>Text codec: decoding\<close>

text \<open>
  \<^verbatim>\<open>file.readBytesUntil('\n', line, 127)\<close>: bytes are taken until a line feed, which is
  consumed and not stored, until 127 bytes are stored, or until the file ends.
\<close>

fun readBytesUntil :: "nat \<Rightarrow> string \<Rightarrow> string \<times> string" where
  "readBytesUntil 0 input = ([], input)"
| "readBytesUntil (Suc n) [] = ([], [])"
| "readBytesUntil (Suc n) (ch # cs) =
     (if ch = CHR 0x0A then ([], cs)
      else (case readBytesUntil n cs of (line, rest) \<Rightarrow> (ch # line, rest)))"

text \<open>
  Lines 80-111 of \<^verbatim>\<open>load\<close>: the bytes read are terminated, a final carriage return is cut,
  the line is trimmed; an empty line, a comment and a line without \<^verbatim>\<open>=\<close> are skipped; the
  line is split at its first \<^verbatim>\<open>=\<close> and both halves are trimmed. The result is the key and
  the value, or \<open>None\<close> for a skipped line.
\<close>

definition split_line :: "string \<Rightarrow> (string \<times> string) option" where
  "split_line bytes =
     (let bytes2 = (if bytes \<noteq> [] \<and> last bytes = CHR 0x0D then butlast bytes else bytes);
          line = trim (cstr bytes2)
      in if line = [] \<or> hd line = CHR ''#'' then None
         else if CHR ''='' \<notin> set line then None
         else Some (trim (takeWhile (\<lambda>ch. ch \<noteq> CHR ''='') line),
                    trim (tl (dropWhile (\<lambda>ch. ch \<noteq> CHR ''='') line))))"

text \<open>Lines 113-174: the chain of \<^verbatim>\<open>strcmp\<close> on the key; an unknown key changes nothing.\<close>

definition apply_key :: "(string \<Rightarrow> u32) \<Rightarrow> string \<Rightarrow> string \<Rightarrow> DiceConfig \<Rightarrow> DiceConfig" where
  "apply_key conv key val c =
     (if key = ''diceId'' then c\<lparr>diceId := strncpy_bytes 15 val @ [NUL]\<rparr>
      else if key = ''deviceA_mac'' then
        (case parseMacAddress val of None \<Rightarrow> c | Some mac \<Rightarrow> c\<lparr>deviceA_mac := mac\<rparr>)
      else if key = ''deviceB1_mac'' then
        (case parseMacAddress val of None \<Rightarrow> c | Some mac \<Rightarrow> c\<lparr>deviceB1_mac := mac\<rparr>)
      else if key = ''deviceB2_mac'' then
        (case parseMacAddress val of None \<Rightarrow> c | Some mac \<Rightarrow> c\<lparr>deviceB2_mac := mac\<rparr>)
      else if key = ''x_background'' then c\<lparr>x_background := ucast (strtoul0 val)\<rparr>
      else if key = ''y_background'' then c\<lparr>y_background := ucast (strtoul0 val)\<rparr>
      else if key = ''z_background'' then c\<lparr>z_background := ucast (strtoul0 val)\<rparr>
      else if key = ''entang_ab1_color'' then c\<lparr>entang_ab1_color := ucast (strtoul0 val)\<rparr>
      else if key = ''entang_ab2_color'' then c\<lparr>entang_ab2_color := ucast (strtoul0 val)\<rparr>
      else if key = ''rssiLimit'' then c\<lparr>rssiLimit := word_of_int (atoi val)\<rparr>
      else if key = ''isSMD'' then c\<lparr>isSMD := parseBool val\<rparr>
      else if key = ''isNano'' then c\<lparr>isNano := parseBool val\<rparr>
      else if key = ''alwaysSeven'' then c\<lparr>alwaysSeven := parseBool val\<rparr>
      else if key = ''randomSwitchPoint'' then c\<lparr>randomSwitchPoint := word_of_int (atoi val)\<rparr>
      else if key = ''tumbleConstant'' then c\<lparr>tumbleConstant := atof conv val\<rparr>
      else if key = ''deepSleepTimeout'' then c\<lparr>deepSleepTimeout := strtoul0 val\<rparr>
      else if key = ''checksum'' then c\<lparr>checksum := word_of_int (atoi val)\<rparr>
      else c)"

definition process_line :: "(string \<Rightarrow> u32) \<Rightarrow> string \<Rightarrow> DiceConfig \<Rightarrow> DiceConfig" where
  "process_line conv bytes c =
     (case split_line bytes of None \<Rightarrow> c | Some (key, val) \<Rightarrow> apply_key conv key val c)"

lemma readBytesUntil_shorter:
  "input \<noteq> [] \<Longrightarrow> length (snd (readBytesUntil (Suc n) input)) < length input"
proof (induction n arbitrary: input)
  case 0
  then show ?case by (cases input) auto
next
  case (Suc n)
  then obtain ch cs where input: "input = ch # cs" by (cases input) auto
  show ?case
  proof (cases cs)
    case Nil
    then show ?thesis using input by simp
  next
    case (Cons d ds)
    then have "length (snd (readBytesUntil (Suc n) cs)) < length cs"
      using Suc.IH [of cs] by simp
    then show ?thesis using input by (simp add: split_beta)
  qed
qed

text \<open>
  The loop \<^verbatim>\<open>while (file.available())\<close> of \<^verbatim>\<open>load\<close> (lines 79-175) on the bytes not yet
  read. Every round consumes at least one byte, so the loop ends.
\<close>

function load_loop :: "(string \<Rightarrow> u32) \<Rightarrow> string \<Rightarrow> DiceConfig \<Rightarrow> DiceConfig" where
  "load_loop conv input c =
     (if input = [] then c
      else load_loop conv (snd (readBytesUntil 127 input))
             (process_line conv (fst (readBytesUntil 127 input)) c))"
  by pat_completeness auto
termination
proof (relation "measure (\<lambda>(conv, input, c). length input)")
  show "wf (measure (\<lambda>(conv, input, c). length input))" by simp
next
  fix conv :: "string \<Rightarrow> u32" and input :: string and c :: DiceConfig
  assume "input \<noteq> []"
  then have "length (snd (readBytesUntil (Suc 126) input)) < length input"
    by (rule readBytesUntil_shorter)
  then show "((conv, snd (readBytesUntil 127 input),
               process_line conv (fst (readBytesUntil 127 input)) c), conv, input, c)
             \<in> measure (\<lambda>(conv, input, c). length input)"
    by simp
qed

declare load_loop.simps [simp del]

text \<open>
  The same loop seen as data: the lines \<^verbatim>\<open>readBytesUntil\<close> cuts the file into, the
  key-value pairs of the lines that are not skipped, the value of the last pair that
  hits a field, and the field after the loop (the old value when no pair hits it).
\<close>

function file_lines :: "string \<Rightarrow> string list" where
  "file_lines input =
     (if input = [] then []
      else fst (readBytesUntil 127 input) # file_lines (snd (readBytesUntil 127 input)))"
  by pat_completeness auto
termination
proof (relation "measure length")
  show "wf (measure length)" by simp
next
  fix input :: string
  assume "input \<noteq> []"
  then have "length (snd (readBytesUntil (Suc 126) input)) < length input"
    by (rule readBytesUntil_shorter)
  then show "(snd (readBytesUntil 127 input), input) \<in> measure length" by simp
qed

declare file_lines.simps [simp del]

definition assignments :: "string \<Rightarrow> (string \<times> string) list" where
  "assignments input = List.map_filter split_line (file_lines input)"

definition last_assigned :: "(string \<Rightarrow> string \<Rightarrow> bool) \<Rightarrow> (string \<times> string) list \<Rightarrow> string option" where
  "last_assigned hits kvs =
     (case filter (\<lambda>kv. hits (fst kv) (snd kv)) kvs of
        [] \<Rightarrow> None
      | kv # more_kvs \<Rightarrow> Some (snd (last (kv # more_kvs))))"

definition decoded ::
  "(string \<Rightarrow> string \<Rightarrow> bool) \<Rightarrow> (string \<Rightarrow> 'a) \<Rightarrow> 'a \<Rightarrow> (string \<times> string) list \<Rightarrow> 'a" where
  "decoded hits parse old kvs = (case last_assigned hits kvs of None \<Rightarrow> old | Some v \<Rightarrow> parse v)"

section \<open>Text codec: encoding\<close>

text \<open>
  What \<^verbatim>\<open>printf\<close> writes for \<^verbatim>\<open>%u\<close>, \<^verbatim>\<open>%d\<close> and \<^verbatim>\<open>%02X\<close>. The text of \<^verbatim>\<open>%.2f\<close> is not
  modelled: it is the parameter \<open>fmt\<close> of \<open>encode\<close>.
\<close>

definition digit_char :: "nat \<Rightarrow> char" where
  "digit_char d = (if d < 10 then char_of (48 + d) else char_of (55 + d))"

function show_dec :: "int \<Rightarrow> string" where
  "show_dec n =
     (if n < 10 then [digit_char (nat n)]
      else show_dec (n div 10) @ [digit_char (nat (n mod 10))])"
  by pat_completeness auto
termination
  by (relation "measure nat") auto

declare show_dec.simps [simp del]

definition show_int :: "int \<Rightarrow> string" where
  "show_int i = (if i < 0 then CHR ''-'' # show_dec (- i) else show_dec i)"

definition show_hex2 :: "u8 \<Rightarrow> string" where
  "show_hex2 b = [digit_char (unat b div 16), digit_char (unat b mod 16)]"

text \<open>
  \<^verbatim>\<open>macToString\<close> (lines 381-386): six groups and five colons, 17 characters, which the
  buffer of 18 holds. The array is read at the indices 0 to 5.
\<close>

definition macToString :: "u8 list \<Rightarrow> string" where
  "macToString mac =
     show_hex2 (mac ! 0) @ '':'' @ show_hex2 (mac ! 1) @ '':'' @ show_hex2 (mac ! 2) @ '':'' @
     show_hex2 (mac ! 3) @ '':'' @ show_hex2 (mac ! 4) @ '':'' @ show_hex2 (mac ! 5)"

text \<open>\<^verbatim>\<open>println\<close> ends the line with carriage return and line feed; the formats end in a line feed.\<close>

definition println :: "string \<Rightarrow> string" where
  "println str = str @ [CHR 0x0D, CHR 0x0A]"

definition bool_text :: "bool \<Rightarrow> string" where
  "bool_text b = (if b then ''true'' else ''false'')"

text \<open>
  The text \<^verbatim>\<open>save\<close> writes (lines 212-259). \<^verbatim>\<open>%s\<close> prints the identifier up to its
  terminating NUL, which every function of the manager that writes the buffer puts
  there.
\<close>

definition encode :: "(u32 \<Rightarrow> string) \<Rightarrow> DiceConfig \<Rightarrow> string" where
  "encode fmt c =
     println ''# Dice Configuration File'' @
     println ''# Auto-generated - Edit with care'' @
     println [] @
     println ''# Device Identification'' @
     ''diceId='' @ cstr (diceId c) @ [CHR 0x0A] @
     println [] @
     println ''# Device MAC Addresses (format: AA:BB:CC:DD:EE:FF)'' @
     ''deviceA_mac='' @ macToString (deviceA_mac c) @ [CHR 0x0A] @
     ''deviceB1_mac='' @ macToString (deviceB1_mac c) @ [CHR 0x0A] @
     ''deviceB2_mac='' @ macToString (deviceB2_mac c) @ [CHR 0x0A] @
     println [] @
     println ''# Display Colors (16-bit RGB565 format)'' @
     ''x_background='' @ show_dec (uint (x_background c)) @ [CHR 0x0A] @
     ''y_background='' @ show_dec (uint (y_background c)) @ [CHR 0x0A] @
     ''z_background='' @ show_dec (uint (z_background c)) @ [CHR 0x0A] @
     ''entang_ab1_color='' @ show_dec (uint (entang_ab1_color c)) @ [CHR 0x0A] @
     ''entang_ab2_color='' @ show_dec (uint (entang_ab2_color c)) @ [CHR 0x0A] @
     println [] @
     println ''# RSSI Settings'' @
     ''rssiLimit='' @ show_int (sint (rssiLimit c)) @ [CHR 0x0A] @
     println [] @
     println ''# Hardware Configuration'' @
     ''isSMD='' @ bool_text (isSMD c) @ [CHR 0x0A] @
     ''isNano='' @ bool_text (isNano c) @ [CHR 0x0A] @
     ''alwaysSeven='' @ bool_text (alwaysSeven c) @ [CHR 0x0A] @
     println [] @
     println ''# Operational Parameters'' @
     ''randomSwitchPoint='' @ show_dec (uint (randomSwitchPoint c)) @ [CHR 0x0A] @
     ''tumbleConstant='' @ fmt (tumbleConstant c) @ [CHR 0x0A] @
     ''deepSleepTimeout='' @ show_dec (uint (deepSleepTimeout c)) @ [CHR 0x0A] @
     println [] @
     println ''# Checksum (auto-calculated)'' @
     ''checksum='' @ show_dec (uint (checksum c)) @ [CHR 0x0A]"

text \<open>
  The same text as the list of its lines, each of which \<^verbatim>\<open>save\<close> ends with a line feed
  (\<open>encode_join\<close> below): comments and empty lines end in the carriage return of
  \<^verbatim>\<open>println\<close>, an assignment is the key, \<^verbatim>\<open>=\<close> and the value.
\<close>

definition assign_line :: "string \<Rightarrow> string \<Rightarrow> string" where
  "assign_line key val = key @ CHR ''='' # val"


section \<open>The backing store\<close>

text \<open>
  The LittleFS collaborator as the manager sees it: whether \<^verbatim>\<open>begin(formatOnFail)\<close>
  mounts, what \<^verbatim>\<open>open("/")\<close> gives and which names \<^verbatim>\<open>openNextFile\<close> lists, the bytes of
  a file opened for reading, and whether a path can be opened for writing. Names are C
  strings.
\<close>

datatype root_handle = NoRoot | NotADirectory | Directory "string list"

record filesys =
  mounts :: "bool \<Rightarrow> bool"
  root_dir :: root_handle
  file_text :: "string \<Rightarrow> string option"
  can_write :: "string \<Rightarrow> bool"

section \<open>Discovery scanner\<close>

text \<open>\<^verbatim>\<open>String::endsWith\<close>.\<close>

definition endsWith :: "string \<Rightarrow> string \<Rightarrow> bool" where
  "endsWith str suffix =
     (if length str < length suffix then False
      else drop (length str - length suffix) str = suffix)"

text \<open>
  The loop over the directory in \<^verbatim>\<open>findConfigFile\<close> (lines 420-440): the state is
  \<open>matchCount\<close> and the buffer \<open>firstMatch\<close> of 64 bytes, which keeps 63 characters of
  the first matching name.
\<close>

fun scan_entries :: "string list \<Rightarrow> nat \<times> string \<Rightarrow> nat \<times> string" where
  "scan_entries [] st = st"
| "scan_entries (filename # others) (matchCount, firstMatch) =
     (if endsWith filename ''_config.txt''
      then scan_entries others
             (matchCount + 1, if matchCount + 1 = 1 then take 63 filename else firstMatch)
      else scan_entries others (matchCount, firstMatch))"

text \<open>
  \<^verbatim>\<open>findConfigFile\<close> (lines 401-467). The result is \<open>Some\<close> of what is written to
  \<open>foundPath\<close> when the function returns true, \<open>None\<close> when it returns false; the
  manager carries the error message.
\<close>

definition findConfigFile :: "filesys \<Rightarrow> nat \<Rightarrow> manager \<Rightarrow> string option \<times> manager" where
  "findConfigFile fs maxLen s =
     (case root_dir fs of
        NoRoot \<Rightarrow> (None, s)
      | NotADirectory \<Rightarrow> (None, s)
      | Directory names \<Rightarrow>
          (case scan_entries names (0, []) of
             (matchCount, firstMatch) \<Rightarrow>
               if matchCount = 1 then
                 (if firstMatch = [] \<or> hd firstMatch \<noteq> CHR ''/''
                  then (Some (take (maxLen - 1) (CHR ''/'' # firstMatch)), s)
                  else (Some (take (maxLen - 1) firstMatch), s))
               else if matchCount = 0 then (None, setError ''No *_config.txt file found'' s)
               else (None, setError ''Multiple *_config.txt files found'' s)))"

section \<open>Loading, saving, starting\<close>

text \<open>
  \<^verbatim>\<open>load(filename)\<close> (lines 68-195): the boolean returned and the manager afterwards. The
  record is decoded in place; the checksum test only sets the result.
\<close>

definition load :: "(string \<Rightarrow> u32) \<Rightarrow> filesys \<Rightarrow> string \<Rightarrow> manager \<Rightarrow> bool \<times> manager" where
  "load conv fs filename s =
     (case file_text fs filename of
        None \<Rightarrow> (False, setError ''Failed to open config file'' s)
      | Some bytes \<Rightarrow>
          (let s1 = s\<lparr>config_of := load_loop conv bytes (config_of s)\<rparr> in
           if checksum (config_of s1) \<noteq> 0 then
             (if \<not> validateChecksum (config_of s1)
              then (False, setError ''Checksum validation failed'' s1)
              else (True, s1))
           else (True, s1)))"

text \<open>
  \<^verbatim>\<open>save(filename)\<close> (lines 202-268): the boolean, the manager and the store afterwards.
  The checksum is computed into the record before the file is opened.
\<close>

definition save ::
  "(u32 \<Rightarrow> string) \<Rightarrow> filesys \<Rightarrow> string \<Rightarrow> manager \<Rightarrow> bool \<times> manager \<times> filesys" where
  "save fmt fs filename s =
     (let s1 = s\<lparr>config_of := calculateChecksum (config_of s)\<rparr> in
      if \<not> can_write fs filename
      then (False, setError ''Failed to open config file for writing'' s1, fs)
      else (True, s1,
            fs\<lparr>file_text := (file_text fs)(filename \<mapsto> encode fmt (config_of s1))\<rparr>))"

text \<open>
  \<^verbatim>\<open>begin(configPath, formatOnFail)\<close> (lines 16-61); \<open>None\<close> is the null pointer. The path
  buffer holds 63 characters.
\<close>

definition begin_manager ::
  "(string \<Rightarrow> u32) \<Rightarrow> filesys \<Rightarrow> string option \<Rightarrow> bool \<Rightarrow> manager \<Rightarrow> bool \<times> manager" where
  "begin_manager conv fs path formatOnFail s =
     (if \<not> mounts fs formatOnFail then (False, setError ''LittleFS mount failed'' s)
      else
        (case (case path of
                 None \<Rightarrow>
                   (case findConfigFile fs 64 s of
                      (Some found, s1) \<Rightarrow> Inr (s1\<lparr>configPath := found\<rparr>)
                    | (None, s1) \<Rightarrow> Inl (True, setDefaults (s1\<lparr>configPath := ''/config.txt''\<rparr>)))
               | Some p \<Rightarrow> Inr (s\<lparr>configPath := take 63 (cstr p)\<rparr>)) of
           Inl early \<Rightarrow> early
         | Inr s2 \<Rightarrow>
             (case load conv fs (configPath s2) s2 of
                (False, s3) \<Rightarrow> (True, setDefaults s3)
              | (True, s3) \<Rightarrow> (True, s3))))"

section \<open>Example stores and files\<close>

text \<open>
  Concrete collaborators for the instances below: a store that mounts and lists the given
  names and files, a store that does not mount and cannot be written, a name of 63
  characters, a file whose checksum line differs from the checksum of the fields it
  leaves in the default record, and a file that \<^verbatim>\<open>load\<close> rejects.
\<close>

definition store_of :: "string list \<Rightarrow> (string \<Rightarrow> string option) \<Rightarrow> filesys" where
  "store_of names files =
     \<lparr>mounts = (\<lambda>formatOnFail. True), root_dir = Directory names, file_text = files,
      can_write = (\<lambda>path. True)\<rparr>"

definition broken_store :: filesys where
  "broken_store =
     \<lparr>mounts = (\<lambda>formatOnFail. False), root_dir = NoRoot, file_text = (\<lambda>path. None),
      can_write = (\<lambda>path. False)\<rparr>"

definition long_name :: string where
  "long_name = replicate 52 (CHR ''a'') @ ''_config.txt''"
definition mismatch_file :: string where
  "mismatch_file = ''rssiLimit=110'' @ [CHR 0x0A] @ ''checksum=77'' @ [CHR 0x0A]"

definition tampered_file :: string where
  "tampered_file = ''diceId=AB'' @ [CHR 0x0A] @ ''rssiLimit=-5'' @ [CHR 0x0A] @ ''checksum=5'' @ [CHR 0x0A]"

definition partial_file :: string where
  "partial_file = ''# only one key'' @ [CHR 0x0A] @ ''rssiLimit=-60'' @ [CHR 0x0A]"

section \<open>Numeric text\<close>

text \<open>
  Two readings of "numeric text" for the claims about the sub-parsers. \<open>no_number\<close>: after
  white space and an optional sign the text does not start with a decimal digit, so the
  integer conversions find nothing to convert. \<open>decimal_text\<close>: the whole text is an
  optional sign and one or more decimal digits, a well-formed integer.
\<close>

definition no_number :: "string \<Rightarrow> bool" where
  "no_number str =
     (case snd (take_sign (dropWhile isspace str)) of
        [] \<Rightarrow> True
      | ch # cs \<Rightarrow> digit_in 10 ch = None)"

definition decimal_text :: "string \<Rightarrow> bool" where
  "decimal_text str =
     (case snd (take_sign str) of
        [] \<Rightarrow> False
      | ch # cs \<Rightarrow> list_all (\<lambda>d. digit_in 10 d \<noteq> None) (ch # cs))"




section \<open>Properties of the integrity checker\<close>

lemma xor_fold_start:
  "foldl (\<lambda>sum b. sum XOR b) a bs = a XOR foldl (\<lambda>sum b. sum XOR b) (0::u8) bs"
proof (induction bs arbitrary: a)
  case Nil
  show ?case by simp
next
  case (Cons b bs)
  have "foldl (\<lambda>sum b. sum XOR b) (a XOR b) bs = (a XOR b) XOR foldl (\<lambda>sum b. sum XOR b) 0 bs"
    by (rule Cons.IH)
  moreover have "foldl (\<lambda>sum b. sum XOR b) (0 XOR b) bs = (0 XOR b) XOR foldl (\<lambda>sum b. sum XOR b) 0 bs"
    by (rule Cons.IH)
  ultimately show ?case by (simp add: ac_simps)
qed

lemma xor_fold_append:
  "foldl (\<lambda>sum b. sum XOR b) (0::u8) (xs @ ys) =
     foldl (\<lambda>sum b. sum XOR b) 0 xs XOR foldl (\<lambda>sum b. sum XOR b) 0 ys"
  by (simp add: xor_fold_start [of "foldl (\<lambda>sum b. sum XOR b) 0 xs" ys])

text \<open>
  What the loop of \<^verbatim>\<open>calculateChecksum\<close> computes on an object of the struct: the byte at
  offset 60, the stored checksum, is inside the range \<open>0 .. 62\<close>, as are the padding
  bytes 49..51, 61 and 62.
\<close>

lemma calculateChecksum_layout:
  assumes "wf_config c"
  shows "checksum (calculateChecksum c) =
           spec_compute c XOR checksum c XOR
           foldl (\<lambda>sum b. sum XOR b) 0 (pad_mid c) XOR
           foldl (\<lambda>sum b. sum XOR b) 0 (take 2 (pad_tail c))"
proof -
  let ?f = "foldl (\<lambda>sum b. sum XOR b) (0::u8)"
  let ?head = "map of_char (diceId c) @ deviceA_mac c @ deviceB1_mac c @ deviceB2_mac c @
     le_bytes16 (x_background c) @ le_bytes16 (y_background c) @ le_bytes16 (z_background c) @
     le_bytes16 (entang_ab1_color c) @ le_bytes16 (entang_ab2_color c) @
     [rssiLimit c, bool_byte (isSMD c), bool_byte (isNano c), bool_byte (alwaysSeven c),
      randomSwitchPoint c]"
  let ?rear = "le_bytes32 (tumbleConstant c) @ le_bytes32 (deepSleepTimeout c)"
  have lf: "length ?head = 49"
    using assms by (simp add: wf_config_def le_bytes16_def)
  have lb: "length ?rear = 8"
    by (simp add: le_bytes32_def)
  have lm: "length (pad_mid c) = 3" and lt: "length (pad_tail c) = 3"
    using assms by (simp_all add: wf_config_def)
  have ob: "object_bytes c = ?head @ pad_mid c @ ?rear @ [checksum c] @ pad_tail c"
    by (simp add: object_bytes_def)
  have "take 63 (object_bytes c) = ?head @ pad_mid c @ ?rear @ [checksum c] @ take 2 (pad_tail c)"
    unfolding ob using lf lb lm lt by (simp del: append_assoc add: le_bytes16_def le_bytes32_def)
  then have "?f (take 63 (object_bytes c)) =
      ?f ?head XOR ?f (pad_mid c) XOR ?f ?rear XOR checksum c XOR ?f (take 2 (pad_tail c))"
    by (simp only: xor_fold_append) simp
  moreover have "spec_compute c = ?f ?head XOR ?f ?rear"
    unfolding spec_compute_def field_bytes_def
    using xor_fold_append [of ?head ?rear] by simp
  ultimately show ?thesis
    by (simp add: calculateChecksum_def sizeof_DiceConfig_def ac_simps)
qed

lemma validateChecksum_layout:
  assumes "wf_config c"
  shows "validateChecksum c \<longleftrightarrow>
           spec_compute c XOR foldl (\<lambda>sum b. sum XOR b) 0 (pad_mid c) XOR
           foldl (\<lambda>sum b. sum XOR b) 0 (take 2 (pad_tail c)) = 0"
proof -
  let ?r = "spec_compute c XOR foldl (\<lambda>sum b. sum XOR b) 0 (pad_mid c) XOR
           foldl (\<lambda>sum b. sum XOR b) 0 (take 2 (pad_tail c))"
  have "checksum (calculateChecksum c) = ?r XOR checksum c"
    using calculateChecksum_layout [OF assms] by (simp add: ac_simps)
  then have "validateChecksum c \<longleftrightarrow> ?r XOR checksum c = checksum c"
    by (simp add: validateChecksum_def Let_def)
  also have "\<dots> \<longleftrightarrow> ?r = 0"
  proof
    assume "?r XOR checksum c = checksum c"
    then have "(?r XOR checksum c) XOR checksum c = checksum c XOR checksum c" by simp
    then show "?r = 0" by (simp add: xor.assoc)
  next
    assume "?r = 0"
    then show "?r XOR checksum c = checksum c" by simp
  qed
  finally show ?thesis .
qed


lemma float_le_zero_iff: "float_le_zero w \<longleftrightarrow> \<not> float_gt_zero w \<and> \<not> float_is_nan w"
  by (auto simp: float_le_zero_def float_gt_zero_def)

lemma validate_iff:
  "validate s \<longleftrightarrow>
     strlen (diceId (config_of s)) \<noteq> 0 \<and> unat (randomSwitchPoint (config_of s)) \<le> 100 \<and>
     (float_gt_zero (tumbleConstant (config_of s)) \<or> float_is_nan (tumbleConstant (config_of s))) \<and>
     (checksum (config_of s) = 0 \<or> validateChecksum (config_of s))"
  by (auto simp: validate_def Let_def float_le_zero_iff)

lemma validate_boundaries:
  "validate (s\<lparr>config_of := (initDefaultConfig c)\<lparr>randomSwitchPoint := 100\<rparr>\<rparr>)"
  "\<not> validate (s\<lparr>config_of := (initDefaultConfig c)\<lparr>randomSwitchPoint := 101\<rparr>\<rparr>)"
  "\<not> validate (s\<lparr>config_of := (initDefaultConfig c)\<lparr>tumbleConstant := 0\<rparr>\<rparr>)"
  "validate (s\<lparr>config_of := (initDefaultConfig c)\<lparr>tumbleConstant := 0x3C23D70A\<rparr>\<rparr>)"
  by (simp_all add: validate_iff initDefaultConfig_def strlen_def cstr_def
      float_gt_zero_def float_is_nan_def)

section \<open>The claims about the integrity checker and validation\<close>

text \<open>
  C1. For every record \<open>r\<close>, validation succeeds on \<open>r\<close> with its checksum set to
  \<open>compute r\<close>, and on every record whose stored checksum is 0. The second half holds
  of the guarded check the callers make (\<open>validate_iff\<close>: a zero checksum passes). The
  first half fails on the code: the loop of \<^verbatim>\<open>calculateChecksum\<close> covers offset 60, the
  checksum itself, so the recomputed value never equals a stored non-zero one unless the
  other bytes cancel. On the default record of a manager in static storage the computed
  checksum is 212, and neither \<^verbatim>\<open>validateChecksum\<close> nor \<^verbatim>\<open>validate\<close> accepts the record
  that carries it.
\<close>

theorem C1_checksum_rejects_its_own_value:
  "checksum (calculateChecksum (initDefaultConfig zero_object)) = 212 \<and>
   \<not> validateChecksum
       ((initDefaultConfig zero_object)
          \<lparr>checksum := checksum (calculateChecksum (initDefaultConfig zero_object))\<rparr>) \<and>
   \<not> validate
       ((new_manager zero_object)
          \<lparr>config_of := (initDefaultConfig zero_object)
             \<lparr>checksum := checksum (calculateChecksum (initDefaultConfig zero_object))\<rparr>\<rparr>)"
  by code_simp

text \<open>
  C2. \<open>compute r\<close> is the XOR of the bytes of every field of \<open>r\<close> except the checksum.
  On the code it is not: the stored checksum (and the padding inside the first 63
  bytes) is folded in as well, see \<open>calculateChecksum_layout\<close>. The record a first
  \<^verbatim>\<open>save()\<close> of the defaults leaves (checksum 212) has field bytes that fold to 212, and
  \<^verbatim>\<open>calculateChecksum\<close> computes 0 on it.
\<close>

theorem C2_compute_includes_stored_checksum:
  "spec_compute (calculateChecksum (initDefaultConfig zero_object)) = 212 \<and>
   checksum (calculateChecksum (calculateChecksum (initDefaultConfig zero_object))) = 0"
  by code_simp

text \<open>
  C6. \<^verbatim>\<open>validate()\<close> is true exactly when the identifier is not empty,
  \<open>randomSwitchPoint \<le> 100\<close>, \<open>tumbleConstant > 0\<close> and a non-zero checksum matches.
  The boundaries the claim names hold (\<open>validate_boundaries\<close>), but the test of the code
  is \<^verbatim>\<open>tumbleConstant <= 0\<close>, which a NaN does not satisfy: the default record with the
  quiet NaN \<open>0x7FC00000\<close> as \<open>tumbleConstant\<close> is accepted although the value is not
  greater than zero.
\<close>

theorem C6_validate_accepts_nan:
  "validate ((new_manager zero_object)
       \<lparr>config_of := (initDefaultConfig zero_object)\<lparr>tumbleConstant := 0x7FC00000\<rparr>\<rparr>) \<and>
   \<not> float_gt_zero 0x7FC00000"
  by code_simp


section \<open>Discovery\<close>

lemma scan_entries_count:
  "fst (scan_entries names (k, f)) = k + length (filter (\<lambda>n. endsWith n ''_config.txt'') names)"
  by (induction names arbitrary: k f) simp_all

lemma scan_entries_first:
  "snd (scan_entries names (k, f)) =
     (if k = 0 then (case filter (\<lambda>n. endsWith n ''_config.txt'') names of
                       [] \<Rightarrow> f | m # ms \<Rightarrow> take 63 m)
      else f)"
  by (induction names arbitrary: k f) simp_all

lemma endsWith_nonempty: "endsWith n ''_config.txt'' \<Longrightarrow> n \<noteq> []"
  by (auto simp: endsWith_def)

text \<open>
  C3 (as amended). For every list of directory entries: when exactly one name ends in
  \<^verbatim>\<open>_config.txt\<close>, \<^verbatim>\<open>findConfigFile\<close> succeeds with that name, given a leading \<^verbatim>\<open>/\<close> when it
  has none and cut to the 63 characters the path buffer holds; with no such name it fails
  with the not-found message, with two or more with the message for several files.
\<close>

theorem C3_discovery:
  assumes "root_dir fs = Directory names"
  shows "(filter (\<lambda>n. endsWith n ''_config.txt'') names = [] \<longrightarrow>
            findConfigFile fs 64 s = (None, setError ''No *_config.txt file found'' s)) \<and>
         (2 \<le> length (filter (\<lambda>n. endsWith n ''_config.txt'') names) \<longrightarrow>
            findConfigFile fs 64 s = (None, setError ''Multiple *_config.txt files found'' s)) \<and>
         (\<forall>m. filter (\<lambda>n. endsWith n ''_config.txt'') names = [m] \<longrightarrow>
            findConfigFile fs 64 s =
              (Some (take 63 (if hd m = CHR ''/'' then m else CHR ''/'' # m)), s))"
proof -
  let ?ms = "filter (\<lambda>n. endsWith n ''_config.txt'') names"
  obtain cnt fm where sc: "scan_entries names (0, []) = (cnt, fm)"
    by (cases "scan_entries names (0, [])")
  have cnt: "cnt = length ?ms"
    using scan_entries_count [of names 0 "[]"] sc by simp
  have fm: "fm = (case ?ms of [] \<Rightarrow> [] | m # ms \<Rightarrow> take 63 m)"
    using scan_entries_first [of names 0 "[]"] sc by simp
  have zero: "?ms = [] \<longrightarrow> findConfigFile fs 64 s = (None, setError ''No *_config.txt file found'' s)"
    using assms sc cnt by (simp add: findConfigFile_def)
  have many: "2 \<le> length ?ms \<longrightarrow>
      findConfigFile fs 64 s = (None, setError ''Multiple *_config.txt files found'' s)"
    using assms sc cnt by (simp add: findConfigFile_def)
  have one: "findConfigFile fs 64 s =
      (Some (take 63 (if hd m = CHR ''/'' then m else CHR ''/'' # m)), s)" if m: "?ms = [m]" for m
  proof -
    have "m \<in> set ?ms" using m by simp
    then have ne: "m \<noteq> []" using endsWith_nonempty by auto
    then obtain a as where mm: "m = a # as" by (cases m) auto
    have c1: "cnt = 1" using cnt m by simp
    have f1: "fm = take 63 m" using fm m by simp
    show ?thesis
      using assms sc c1 f1 mm by (simp add: findConfigFile_def)
  qed
  show ?thesis using zero many one by blast
qed

theorem C3_witness:
  "findConfigFile (store_of [''a_config.txt'', ''notes.txt''] (\<lambda>p. None)) 64 (new_manager zero_object) =
     (Some ''/a_config.txt'', new_manager zero_object) \<and>
   findConfigFile (store_of [] (\<lambda>p. None)) 64 (new_manager zero_object) =
     (None, setError ''No *_config.txt file found'' (new_manager zero_object)) \<and>
   findConfigFile (store_of [''a_config.txt'', ''b_config.txt''] (\<lambda>p. None)) 64 (new_manager zero_object) =
     (None, setError ''Multiple *_config.txt files found'' (new_manager zero_object))"
proof -
  let ?s = "new_manager zero_object"
  have r: "root_dir (store_of names (\<lambda>p. None)) = Directory names" for names
    by (simp add: store_of_def)
  have f1: "filter (\<lambda>n. endsWith n ''_config.txt'') [''a_config.txt'', ''notes.txt''] = [''a_config.txt'']"
    by (simp add: endsWith_def)
  have f2: "filter (\<lambda>n. endsWith n ''_config.txt'') [''a_config.txt'', ''b_config.txt''] =
      [''a_config.txt'', ''b_config.txt'']"
    by (simp add: endsWith_def)
  have "findConfigFile (store_of [''a_config.txt'', ''notes.txt''] (\<lambda>p. None)) 64 ?s =
      (Some ''/a_config.txt'', ?s)"
    using C3_discovery [OF r, of "[''a_config.txt'', ''notes.txt'']" ?s] f1 by simp
  moreover have "findConfigFile (store_of [] (\<lambda>p. None)) 64 ?s =
      (None, setError ''No *_config.txt file found'' ?s)"
    using C3_discovery [OF r, of "[]" ?s] by simp
  moreover have "findConfigFile (store_of [''a_config.txt'', ''b_config.txt''] (\<lambda>p. None)) 64 ?s =
      (None, setError ''Multiple *_config.txt files found'' ?s)"
    using C3_discovery [OF r, of "[''a_config.txt'', ''b_config.txt'']" ?s] f2 by simp
  ultimately show ?thesis by simp
qed

text \<open>
  C3 as stated promises the path of the entry itself. A name of 63 characters shows the
  difference: it is the only match, and the path returned is not that name with a leading
  \<^verbatim>\<open>/\<close> (its last character is cut).
\<close>

theorem C3_counterexample:
  "filter (\<lambda>n. endsWith n ''_config.txt'') [long_name] = [long_name] \<and>
   fst (findConfigFile (store_of [long_name] (\<lambda>p. None)) 64 (new_manager zero_object)) \<noteq>
     Some (CHR ''/'' # long_name)"
  by code_simp

section \<open>Saving and loading\<close>

text \<open>
  C10. For every record, store and path, \<^verbatim>\<open>save()\<close> leaves in the record the checksum
  \<^verbatim>\<open>calculateChecksum\<close> computes, whether or not the file can then be opened. The call
  returns whether the file could be opened for writing; when it could not, the store is
  unchanged and the error message is set, and the record has been updated all the same.
\<close>

theorem C10_save:
  "config_of (fst (snd (save fmt fs filename s))) = calculateChecksum (config_of s) \<and>
   fst (save fmt fs filename s) = can_write fs filename \<and>
   snd (snd (save fmt fs filename s)) =
     (if can_write fs filename
      then fs\<lparr>file_text := (file_text fs)(filename \<mapsto> encode fmt (calculateChecksum (config_of s)))\<rparr>
      else fs) \<and>
   lastError (fst (snd (save fmt fs filename s))) =
     (if can_write fs filename then lastError s
      else ''Failed to open config file for writing'')"
  by (simp add: save_def Let_def setError_def)

theorem C10_witness:
  "\<not> can_write broken_store ''/config.txt'' \<and>
   fst (save (\<lambda>w. ''2.50'') broken_store ''/config.txt'' (new_manager zero_object)) = False \<and>
   snd (snd (save (\<lambda>w. ''2.50'') broken_store ''/config.txt'' (new_manager zero_object))) =
     broken_store \<and>
   checksum (config_of (new_manager zero_object)) = 0 \<and>
   checksum (config_of (fst (snd (save (\<lambda>w. ''2.50'') broken_store ''/config.txt''
      (new_manager zero_object))))) = 212 \<and>
   fst (save (\<lambda>w. ''2.50'') (store_of [] (\<lambda>p. None)) ''/config.txt'' (new_manager zero_object)) = True \<and>
   checksum (config_of (fst (snd (save (\<lambda>w. ''2.50'') (store_of [] (\<lambda>p. None)) ''/config.txt''
      (new_manager zero_object))))) = 212"
proof -
  let ?fm = "\<lambda>w::u32. ''2.50''"
  let ?s = "new_manager zero_object"
  let ?ok = "store_of [] (\<lambda>p. None)"
  have h: "\<not> can_write broken_store ''/config.txt''"
    by (simp add: broken_store_def)
  have w: "can_write ?ok ''/config.txt''"
    by (simp add: store_of_def)
  have c: "checksum (calculateChecksum (config_of ?s)) = 212"
    by code_simp
  have z: "checksum (config_of ?s) = 0"
    by (simp add: new_manager_def initDefaultConfig_def)
  note bad = C10_save [of ?fm broken_store "''/config.txt''" ?s]
  note good = C10_save [of ?fm ?ok "''/config.txt''" ?s]
  have b1: "fst (save ?fm broken_store ''/config.txt'' ?s) = False"
    using bad h by simp
  have b2: "snd (snd (save ?fm broken_store ''/config.txt'' ?s)) = broken_store"
    using bad h by simp
  have b3: "checksum (config_of (fst (snd (save ?fm broken_store ''/config.txt'' ?s)))) = 212"
    using bad c by simp
  have g1: "fst (save ?fm ?ok ''/config.txt'' ?s) = True"
    using good w by simp
  have g3: "checksum (config_of (fst (snd (save ?fm ?ok ''/config.txt'' ?s)))) = 212"
    using good c by simp
  show ?thesis using h b1 b2 z b3 g1 g3 by (intro conjI)
qed

text \<open>
  What \<^verbatim>\<open>load()\<close> does when its own test fails: the call returns failure and the record
  is the decoded one, nothing is rolled back.
\<close>

lemma load_failure_keeps_record:
  assumes "file_text fs filename = Some bytes"
    and "checksum (load_loop conv bytes (config_of s)) \<noteq> 0"
    and "\<not> validateChecksum (load_loop conv bytes (config_of s))"
  shows "fst (load conv fs filename s) = False \<and>
         config_of (snd (load conv fs filename s)) = load_loop conv bytes (config_of s)"
  using assms by (simp add: load_def Let_def setError_def)

text \<open>
  C5. For every file whose decoded checksum is non-zero and does not match the checksum
  recomputed over the other fields, \<^verbatim>\<open>load()\<close> returns failure and keeps the decoded
  fields. The second half holds (\<open>load_failure_keeps_record\<close>). The first does not:
  the test of \<^verbatim>\<open>load()\<close> is \<^verbatim>\<open>validateChecksum\<close>, whose result does not depend on the
  stored checksum (\<open>validateChecksum_layout\<close>). Loaded into the default record, the file
  \<open>mismatch_file\<close> gives \<open>rssiLimit\<close> 110 and the stored checksum 77; the bytes of the
  other fields fold to 0, which is not 77, and \<^verbatim>\<open>load()\<close> returns success.
\<close>

theorem C5_load_accepts_mismatch:
  "checksum (load_loop (\<lambda>t. 0) mismatch_file (config_of (new_manager zero_object))) = 77 \<and>
   sint (rssiLimit (load_loop (\<lambda>t. 0) mismatch_file (config_of (new_manager zero_object)))) = 110 \<and>
   spec_compute (load_loop (\<lambda>t. 0) mismatch_file (config_of (new_manager zero_object))) = 0 \<and>
   fst (load (\<lambda>t. 0) (store_of [] [''/c.txt'' \<mapsto> mismatch_file]) ''/c.txt''
     (new_manager zero_object)) = True"
  by code_simp

section \<open>Starting the manager\<close>

lemma findConfigFile_config: "config_of (snd (findConfigFile fs n s)) = config_of s"
  by (simp add: findConfigFile_def setError_def split: root_handle.splits prod.splits)

lemma findConfigFile_found: "fst (findConfigFile fs n s) = Some found \<Longrightarrow> snd (findConfigFile fs n s) = s"
  by (auto simp: findConfigFile_def setError_def split: root_handle.splits prod.splits if_splits)

lemma findConfigFile_count:
  assumes "root_dir fs = Directory names"
  shows "fst (findConfigFile fs n s) = None \<longleftrightarrow>
           length (filter (\<lambda>n. endsWith n ''_config.txt'') names) \<noteq> 1"
proof -
  obtain cnt fm where sc: "scan_entries names (0, []) = (cnt, fm)"
    by (cases "scan_entries names (0, [])")
  have "cnt = length (filter (\<lambda>n. endsWith n ''_config.txt'') names)"
    using scan_entries_count [of names 0 "[]"] sc by simp
  then show ?thesis
    using assms sc by (simp add: findConfigFile_def)
qed

lemma load_path_irrelevant:
  "fst (load conv fs filename (s\<lparr>configPath := p\<rparr>)) = fst (load conv fs filename s)"
  "config_of (snd (load conv fs filename (s\<lparr>configPath := p\<rparr>))) =
     config_of (snd (load conv fs filename s))"
  by (cases "file_text fs filename"; simp add: load_def Let_def setError_def)+

lemma begin_unmounted:
  "\<not> mounts fs fof \<Longrightarrow> begin_manager conv fs path fof s = (False, setError ''LittleFS mount failed'' s)"
  by (simp add: begin_manager_def)

lemma begin_not_found:
  assumes "mounts fs fof" and "fst (findConfigFile fs 64 s) = None"
  shows "fst (begin_manager conv fs None fof s) = True"
    and "config_of (snd (begin_manager conv fs None fof s)) = initDefaultConfig (config_of s)"
proof -
  obtain r s1 where f: "findConfigFile fs 64 s = (r, s1)" by (cases "findConfigFile fs 64 s")
  have r: "r = None" using assms(2) f by simp
  have c: "config_of s1 = config_of s" using findConfigFile_config [of fs 64 s] f by simp
  show "fst (begin_manager conv fs None fof s) = True"
    using assms(1) f r by (simp add: begin_manager_def)
  show "config_of (snd (begin_manager conv fs None fof s)) = initDefaultConfig (config_of s)"
    using assms(1) f r c by (simp add: begin_manager_def setDefaults_def)
qed

lemma begin_loads:
  assumes "mounts fs fof"
    and "(path = None \<and> fst (findConfigFile fs 64 s) = Some p) \<or>
         (\<exists>q. path = Some q \<and> p = take 63 (cstr q))"
  shows "fst (begin_manager conv fs path fof s) = True"
    and "config_of (snd (begin_manager conv fs path fof s)) =
           (if fst (load conv fs p s)
            then config_of (snd (load conv fs p s))
            else initDefaultConfig (config_of (snd (load conv fs p s))))"
proof -
  let ?s2 = "s\<lparr>configPath := p\<rparr>"
  obtain ok s3 where l: "load conv fs p ?s2 = (ok, s3)" by (cases "load conv fs p ?s2")
  have ok: "ok = fst (load conv fs p s)"
    using load_path_irrelevant(1) [where conv = conv and fs = fs and filename = p and s = s and p = p] l by simp
  have c3: "config_of s3 = config_of (snd (load conv fs p s))"
    using load_path_irrelevant(2) [where conv = conv and fs = fs and filename = p and s = s and p = p] l by simp
  have b: "begin_manager conv fs path fof s = (if ok then (True, s3) else (True, setDefaults s3))"
    using assms(2)
  proof
    assume a: "path = None \<and> fst (findConfigFile fs 64 s) = Some p"
    then have "findConfigFile fs 64 s = (Some p, s)"
      using findConfigFile_found [of fs 64 s p] by (cases "findConfigFile fs 64 s") simp
    then show ?thesis using assms(1) a l by (simp add: begin_manager_def)
  next
    assume "\<exists>q. path = Some q \<and> p = take 63 (cstr q)"
    then obtain q where "path = Some q" "p = take 63 (cstr q)" by blast
    then show ?thesis using assms(1) l by (simp add: begin_manager_def)
  qed
  show "fst (begin_manager conv fs path fof s) = True" using b by simp
  show "config_of (snd (begin_manager conv fs path fof s)) =
           (if fst (load conv fs p s)
            then config_of (snd (load conv fs p s))
            else initDefaultConfig (config_of (snd (load conv fs p s))))"
    using b ok c3 by (simp add: setDefaults_def)
qed

lemma initDefaultConfig_fields:
  "cstr (diceId (initDefaultConfig c)) = ''DEFAULT''"
  "deviceA_mac (initDefaultConfig c) = [0, 0, 0, 0, 0, 0]"
  "deviceB1_mac (initDefaultConfig c) = [0, 0, 0, 0, 0, 0]"
  "deviceB2_mac (initDefaultConfig c) = [0, 0, 0, 0, 0, 0]"
  "x_background (initDefaultConfig c) = 0xF800"
  "y_background (initDefaultConfig c) = 0x07E0"
  "z_background (initDefaultConfig c) = 0x001F"
  "entang_ab1_color (initDefaultConfig c) = 0xFFFF"
  "entang_ab2_color (initDefaultConfig c) = 0"
  "sint (rssiLimit (initDefaultConfig c)) = - 70"
  "isSMD (initDefaultConfig c) = False"
  "isNano (initDefaultConfig c) = False"
  "alwaysSeven (initDefaultConfig c) = False"
  "randomSwitchPoint (initDefaultConfig c) = 50"
  "tumbleConstant (initDefaultConfig c) = 0x40200000"
  "deepSleepTimeout (initDefaultConfig c) = 300000"
  "checksum (initDefaultConfig c) = 0"
  by (simp_all add: initDefaultConfig_def cstr_def eval_nat_numeral)

text \<open>
  C4. \<^verbatim>\<open>begin()\<close> returns exactly what the mount returns. When it mounts and no path is
  given and the directory does not hold exactly one \<^verbatim>\<open>*_config.txt\<close>, the record is the
  output of the default policy; when \<^verbatim>\<open>load()\<close> fails on the path given or found, the
  record is again the output of the default policy (applied to what the load left, see
  \<open>initDefaultConfig_fields\<close> for its fields).
\<close>

theorem C4_begin:
  "fst (begin_manager conv fs path fof s) = mounts fs fof \<and>
   (\<forall>names. mounts fs fof \<longrightarrow> path = None \<longrightarrow> root_dir fs = Directory names \<longrightarrow>
      length (filter (\<lambda>n. endsWith n ''_config.txt'') names) \<noteq> 1 \<longrightarrow>
      config_of (snd (begin_manager conv fs path fof s)) = initDefaultConfig (config_of s)) \<and>
   (\<forall>p. mounts fs fof \<longrightarrow>
      (path = None \<and> fst (findConfigFile fs 64 s) = Some p) \<or>
      (\<exists>q. path = Some q \<and> p = take 63 (cstr q)) \<longrightarrow>
      \<not> fst (load conv fs p s) \<longrightarrow>
      config_of (snd (begin_manager conv fs path fof s)) =
        initDefaultConfig (config_of (snd (load conv fs p s))))"
proof (intro conjI allI impI)
  show "fst (begin_manager conv fs path fof s) = mounts fs fof"
  proof (cases "mounts fs fof")
    case False
    then show ?thesis by (simp add: begin_unmounted)
  next
    case True
    show ?thesis
    proof (cases path)
      case None
      show ?thesis
      proof (cases "fst (findConfigFile fs 64 s)")
        case N: None
        show ?thesis using begin_not_found(1) [OF True N] None True by simp
      next
        case (Some p)
        show ?thesis using begin_loads(1) [OF True, of path s p] None Some True by simp
      qed
    next
      case (Some q)
      show ?thesis using begin_loads(1) [OF True, of path s "take 63 (cstr q)"] Some True by simp
    qed
  qed
next
  fix names
  assume m: "mounts fs fof" and p: "path = None" and r: "root_dir fs = Directory names"
    and n: "length (filter (\<lambda>n. endsWith n ''_config.txt'') names) \<noteq> 1"
  have "fst (findConfigFile fs 64 s) = None"
    using findConfigFile_count [OF r, of 64 s] n by simp
  then show "config_of (snd (begin_manager conv fs path fof s)) = initDefaultConfig (config_of s)"
    using begin_not_found(2) [OF m] p by simp
next
  fix p
  assume m: "mounts fs fof"
    and a: "(path = None \<and> fst (findConfigFile fs 64 s) = Some p) \<or>
      (\<exists>q. path = Some q \<and> p = take 63 (cstr q))"
    and l: "\<not> fst (load conv fs p s)"
  show "config_of (snd (begin_manager conv fs path fof s)) =
        initDefaultConfig (config_of (snd (load conv fs p s)))"
    using begin_loads(2) [OF m a] l by simp
qed

theorem C4_witness:
  "fst (begin_manager (\<lambda>t. 0) broken_store None True (new_manager zero_object)) = False \<and>
   fst (begin_manager (\<lambda>t. 0) (store_of [] (\<lambda>p. None)) None True (new_manager zero_object)) = True \<and>
   config_of (snd (begin_manager (\<lambda>t. 0) (store_of [] (\<lambda>p. None)) None True (new_manager zero_object))) =
     initDefaultConfig (config_of (new_manager zero_object)) \<and>
   config_of (snd (begin_manager (\<lambda>t. 0) (store_of [''a_config.txt'', ''b_config.txt''] (\<lambda>p. None)) None True
      (new_manager zero_object))) = initDefaultConfig (config_of (new_manager zero_object)) \<and>
   fst (begin_manager (\<lambda>t. 0) (store_of [] [''/c.txt'' \<mapsto> tampered_file]) (Some ''/c.txt'') True
      (new_manager zero_object)) = True \<and>
   sint (rssiLimit (config_of (snd (begin_manager (\<lambda>t. 0) (store_of [] [''/c.txt'' \<mapsto> tampered_file])
      (Some ''/c.txt'') True (new_manager zero_object))))) = - 70"
proof -
  let ?s = "new_manager zero_object"
  let ?cv = "\<lambda>t::string. 0::u32"
  let ?fs = "store_of [] [''/c.txt'' \<mapsto> tampered_file]"
  have m0: "mounts broken_store True = False" by (simp add: broken_store_def)
  have m1: "mounts (store_of names files) True" for names files by (simp add: store_of_def)
  have r1: "root_dir (store_of names files) = Directory names" for names files
    by (simp add: store_of_def)
  have n0: "length (filter (\<lambda>n. endsWith n ''_config.txt'') []) \<noteq> 1" by simp
  have n2: "length (filter (\<lambda>n. endsWith n ''_config.txt'') [''a_config.txt'', ''b_config.txt'']) \<noteq> 1"
    by (simp add: endsWith_def)
  have p: "''/c.txt'' = take 63 (cstr ''/c.txt'')" by (simp add: cstr_def)
  have l: "\<not> fst (load ?cv ?fs ''/c.txt'' ?s)" by code_simp
  have a: "fst (begin_manager ?cv broken_store None True ?s) = False"
    using C4_begin [of ?cv broken_store None True ?s] m0 by simp
  have b: "fst (begin_manager ?cv (store_of [] (\<lambda>p. None)) None True ?s) = True"
    using C4_begin [of ?cv "store_of [] (\<lambda>p. None)" None True ?s] m1 by simp
  have c: "config_of (snd (begin_manager ?cv (store_of [] (\<lambda>p. None)) None True ?s)) =
      initDefaultConfig (config_of ?s)"
    using C4_begin [of ?cv "store_of [] (\<lambda>p. None)" None True ?s] m1 r1 n0 by blast
  have d: "config_of (snd (begin_manager ?cv (store_of [''a_config.txt'', ''b_config.txt''] (\<lambda>p. None))
      None True ?s)) = initDefaultConfig (config_of ?s)"
    using C4_begin [of ?cv "store_of [''a_config.txt'', ''b_config.txt''] (\<lambda>p. None)" None True ?s]
      m1 r1 n2 by blast
  have e: "fst (begin_manager ?cv ?fs (Some ''/c.txt'') True ?s) = True"
    using C4_begin [of ?cv ?fs "Some ''/c.txt''" True ?s] m1 by simp
  have "config_of (snd (begin_manager ?cv ?fs (Some ''/c.txt'') True ?s)) =
      initDefaultConfig (config_of (snd (load ?cv ?fs ''/c.txt'' ?s)))"
    using C4_begin [of ?cv ?fs "Some ''/c.txt''" True ?s] m1 p l by blast
  then have f: "sint (rssiLimit (config_of (snd (begin_manager ?cv ?fs (Some ''/c.txt'') True ?s)))) = - 70"
    by (simp only: initDefaultConfig_fields)
  show ?thesis using a b c d e f by (intro conjI)
qed


section \<open>The sub-parsers\<close>

lemma char_eq_code: "c = d \<longleftrightarrow> (of_char c :: nat) = of_char d"
  by simp

lemma tolower_letter:
  assumes "97 \<le> (of_char l :: nat)" and "(of_char l :: nat) \<le> 122"
  shows "tolower c = l \<longleftrightarrow> c = l \<or> (of_char c :: nat) = of_char l - 32"
proof -
  let ?n = "of_char c :: nat" and ?m = "of_char l :: nat"
  have cl: "c = l \<longleftrightarrow> ?n = ?m" by simp
  show ?thesis
  proof (cases "65 \<le> ?n \<and> ?n \<le> 90")
    case True
    then have "tolower c = char_of (?n + 32)" by (simp add: tolower_def Let_def)
    then have "tolower c = l \<longleftrightarrow> (?n + 32) mod 256 = ?m"
      by (metis char_of_char of_char_eq_iff of_char_of)
    also have "\<dots> \<longleftrightarrow> ?n = ?m - 32" using True assms by auto
    finally show ?thesis using True assms cl by auto
  next
    case False
    then have "tolower c = c" by (auto simp: tolower_def Let_def)
    then show ?thesis using False assms cl by auto
  qed
qed

lemma tolower_true:
  "tolower a = CHR ''t'' \<longleftrightarrow> a = CHR ''t'' \<or> a = CHR ''T''"
  "tolower b = CHR ''r'' \<longleftrightarrow> b = CHR ''r'' \<or> b = CHR ''R''"
  "tolower c = CHR ''u'' \<longleftrightarrow> c = CHR ''u'' \<or> c = CHR ''U''"
  "tolower d = CHR ''e'' \<longleftrightarrow> d = CHR ''e'' \<or> d = CHR ''E''"
  by (simp_all add: tolower_letter char_eq_code [of _ "CHR ''T''"] char_eq_code [of _ "CHR ''R''"]
      char_eq_code [of _ "CHR ''U''"] char_eq_code [of _ "CHR ''E''"])

lemma parseBool_iff:
  "parseBool v \<longleftrightarrow>
     (\<exists>a b c d. v = [a, b, c, d] \<and> (a = CHR ''t'' \<or> a = CHR ''T'') \<and> (b = CHR ''r'' \<or> b = CHR ''R'') \<and>
        (c = CHR ''u'' \<or> c = CHR ''U'') \<and> (d = CHR ''e'' \<or> d = CHR ''E'')) \<or>
     v = ''1''"
proof -
  have "map tolower v = ''true'' \<longleftrightarrow>
      (\<exists>a b c d. v = [a, b, c, d] \<and> tolower a = CHR ''t'' \<and> tolower b = CHR ''r'' \<and>
         tolower c = CHR ''u'' \<and> tolower d = CHR ''e'')"
    by (auto simp: map_eq_Cons_conv)
  then show ?thesis
    by (simp add: parseBool_def tolower_true)
qed

lemma no_number_atoi: "no_number v \<Longrightarrow> atoi v = 0"
  by (auto simp: no_number_def atoi_def Let_def split: prod.splits list.splits)

lemma no_number_strtoul0: "no_number v \<Longrightarrow> strtoul0 v = 0"
proof -
  assume a: "no_number v"
  obtain neg s2 where t: "take_sign (dropWhile isspace v) = (neg, s2)"
    by (cases "take_sign (dropWhile isspace v)")
  show ?thesis
  proof (cases s2)
    case Nil
    then show ?thesis using t by (simp add: strtoul0_def)
  next
    case (Cons c0 r0)
    then have d: "digit_in 10 c0 = None" using a t by (simp add: no_number_def)
    have "digit_in 10 (CHR ''0'') = Some 0" by (simp add: digit_in_def digit_val_def)
    then have z: "c0 \<noteq> CHR ''0''" using d by auto
    have v: "fst (digits_value 10 0 s2) = 0" using Cons d by simp
    have "strtoul0 v = (if neg then - word_of_int 0 else word_of_int 0)"
      unfolding strtoul0_def t using Cons z v by (simp del: digits_value.simps)
    then show ?thesis by simp
  qed
qed

lemma no_subject_atof: "\<not> strtod_subject v \<Longrightarrow> atof conv v = 0"
  by (simp add: atof_def)

lemma load_result:
  assumes "file_text fs filename = Some bytes"
  shows "fst (load conv fs filename s) =
           (checksum (load_loop conv bytes (config_of s)) = 0 \<or>
            validateChecksum (load_loop conv bytes (config_of s)))"
    and "config_of (snd (load conv fs filename s)) = load_loop conv bytes (config_of s)"
  using assms by (simp_all add: load_def Let_def setError_def)

text \<open>
  C9 (as amended). The sub-parsers are total. A boolean field is true exactly for
  \<^verbatim>\<open>true\<close> in any letter case and for \<^verbatim>\<open>1\<close>. An integer field decodes to 0 every text
  that does not start, after white space and an optional sign, with a decimal digit, and
  the float field every text in which \<^verbatim>\<open>strtod\<close> finds nothing to convert. No value text
  makes \<^verbatim>\<open>load\<close> fail: on a file that opens, the result depends on the checksum test
  alone. Nothing is said of what a text that starts with a number decodes to.
\<close>

theorem C9_subparsers:
  "(parseBool v \<longleftrightarrow>
      (\<exists>a b c d. v = [a, b, c, d] \<and> (a = CHR ''t'' \<or> a = CHR ''T'') \<and> (b = CHR ''r'' \<or> b = CHR ''R'') \<and>
         (c = CHR ''u'' \<or> c = CHR ''U'') \<and> (d = CHR ''e'' \<or> d = CHR ''E'')) \<or>
      v = ''1'') \<and>
   isSMD (apply_key conv ''isSMD'' v c) = parseBool v \<and>
   isNano (apply_key conv ''isNano'' v c) = parseBool v \<and>
   alwaysSeven (apply_key conv ''alwaysSeven'' v c) = parseBool v \<and>
   (no_number v \<longrightarrow>
      x_background (apply_key conv ''x_background'' v c) = 0 \<and>
      y_background (apply_key conv ''y_background'' v c) = 0 \<and>
      z_background (apply_key conv ''z_background'' v c) = 0 \<and>
      entang_ab1_color (apply_key conv ''entang_ab1_color'' v c) = 0 \<and>
      entang_ab2_color (apply_key conv ''entang_ab2_color'' v c) = 0 \<and>
      rssiLimit (apply_key conv ''rssiLimit'' v c) = 0 \<and>
      randomSwitchPoint (apply_key conv ''randomSwitchPoint'' v c) = 0 \<and>
      deepSleepTimeout (apply_key conv ''deepSleepTimeout'' v c) = 0 \<and>
      checksum (apply_key conv ''checksum'' v c) = 0) \<and>
   (\<not> strtod_subject v \<longrightarrow> tumbleConstant (apply_key conv ''tumbleConstant'' v c) = 0) \<and>
   (\<forall>bytes. file_text fs filename = Some bytes \<longrightarrow>
      fst (load conv fs filename s) =
        (checksum (load_loop conv bytes (config_of s)) = 0 \<or>
         validateChecksum (load_loop conv bytes (config_of s))))"
proof (intro conjI impI allI)
  show "parseBool v \<longleftrightarrow>
      (\<exists>a b c d. v = [a, b, c, d] \<and> (a = CHR ''t'' \<or> a = CHR ''T'') \<and> (b = CHR ''r'' \<or> b = CHR ''R'') \<and>
         (c = CHR ''u'' \<or> c = CHR ''U'') \<and> (d = CHR ''e'' \<or> d = CHR ''E'')) \<or>
      v = ''1''"
    by (rule parseBool_iff)
next
  fix bytes assume "file_text fs filename = Some bytes"
  then show "fst (load conv fs filename s) =
        (checksum (load_loop conv bytes (config_of s)) = 0 \<or>
         validateChecksum (load_loop conv bytes (config_of s)))"
    by (rule load_result(1))
qed (simp_all add: apply_key_def no_number_atoi no_number_strtoul0 no_subject_atof)

theorem C9_witness:
  "no_number ''abc'' \<and>
   rssiLimit (apply_key (\<lambda>t. 7) ''rssiLimit'' ''abc'' (initDefaultConfig zero_object)) = 0 \<and>
   deepSleepTimeout (apply_key (\<lambda>t. 7) ''deepSleepTimeout'' ''abc'' (initDefaultConfig zero_object)) = 0 \<and>
   \<not> strtod_subject ''abc'' \<and>
   tumbleConstant (apply_key (\<lambda>t. 7) ''tumbleConstant'' ''abc'' (initDefaultConfig zero_object)) = 0 \<and>
   parseBool ''TRUE'' \<and> \<not> parseBool ''yes'' \<and>
   fst (load (\<lambda>t. 7) (store_of [] [''/c.txt'' \<mapsto> ''rssiLimit=abc'']) ''/c.txt''
     (new_manager zero_object))"
proof -
  let ?cv = "\<lambda>t::string. 7::u32"
  let ?fs = "store_of [] [''/c.txt'' \<mapsto> ''rssiLimit=abc'']"
  let ?s = "new_manager zero_object"
  let ?c = "initDefaultConfig zero_object"
  note abc = C9_subparsers [of "''abc''" ?cv ?c ?fs "''/c.txt''" ?s]
  have n: "no_number ''abc''" by code_simp
  have f: "\<not> strtod_subject ''abc''" by code_simp
  have o: "file_text ?fs ''/c.txt'' = Some ''rssiLimit=abc''" by (simp add: store_of_def)
  have z: "checksum (load_loop ?cv ''rssiLimit=abc'' (config_of ?s)) = 0" by code_simp
  have r: "rssiLimit (apply_key ?cv ''rssiLimit'' ''abc'' ?c) = 0"
    using abc n by blast
  have d: "deepSleepTimeout (apply_key ?cv ''deepSleepTimeout'' ''abc'' ?c) = 0"
    using abc n by blast
  have t: "tumbleConstant (apply_key ?cv ''tumbleConstant'' ''abc'' ?c) = 0"
    using abc f by blast
  have l: "fst (load ?cv ?fs ''/c.txt'' ?s)"
    using abc o z by blast
  have b1: "parseBool ''TRUE''"
    using C9_subparsers [of "''TRUE''" ?cv ?c ?fs "''/c.txt''" ?s] by blast
  have b2: "\<not> parseBool ''yes''"
    using C9_subparsers [of "''yes''" ?cv ?c ?fs "''/c.txt''" ?s] by simp
  show ?thesis using n r d f t b1 b2 l by (intro conjI)
qed

text \<open>
  C9 as stated has every malformed numeric text decode to 0. The conversions stop at the
  first character that is not part of a number and keep what they have read: in these
  two instances \<^verbatim>\<open>12abc\<close>, which is not a decimal integer, gives 12, and \<^verbatim>\<open>0x1Fzz\<close>
  gives 31.
\<close>

theorem C9_counterexample:
  "\<not> decimal_text ''12abc'' \<and>
   sint (rssiLimit (apply_key (\<lambda>t. 0) ''rssiLimit'' ''12abc'' (initDefaultConfig zero_object))) = 12 \<and>
   x_background (apply_key (\<lambda>t. 0) ''x_background'' ''0x1Fzz'' (initDefaultConfig zero_object)) = 31"
  by code_simp


section \<open>Decoding as a fold over the assignments of the file\<close>

lemma load_loop_lines:
  "load_loop conv input c = foldl (\<lambda>c l. process_line conv l c) c (file_lines input)"
proof (induction conv input c rule: load_loop.induct)
  case (1 conv input c)
  show ?case
  proof (cases "input = []")
    case True
    have "load_loop conv input c = c"
      by (subst load_loop.simps) (simp only: True simp_thms if_True)
    moreover have "file_lines input = []"
      by (subst file_lines.simps) (simp only: True simp_thms if_True)
    ultimately show ?thesis by simp
  next
    case False
    let ?l = "fst (readBytesUntil 127 input)" and ?r = "snd (readBytesUntil 127 input)"
    have "load_loop conv input c = load_loop conv ?r (process_line conv ?l c)"
      by (subst load_loop.simps) (simp only: False simp_thms if_False)
    moreover have "file_lines input = ?l # file_lines ?r"
      by (subst file_lines.simps) (simp only: False simp_thms if_False)
    moreover have "load_loop conv ?r (process_line conv ?l c) =
        foldl (\<lambda>c l. process_line conv l c) (process_line conv ?l c) (file_lines ?r)"
      by (rule "1.IH" [OF False])
    ultimately show ?thesis by simp
  qed
qed

lemma foldl_process_lines:
  "foldl (\<lambda>c l. process_line conv l c) c ls =
     foldl (\<lambda>c kv. apply_key conv (fst kv) (snd kv) c) c (List.map_filter split_line ls)"
proof (induction ls arbitrary: c)
  case Nil
  show ?case by (simp add: List.map_filter_simps)
next
  case (Cons l ls)
  show ?case
  proof (cases "split_line l")
    case None
    then have "process_line conv l c = c" by (simp add: process_line_def)
    then show ?thesis using None by (simp add: List.map_filter_simps Cons.IH)
  next
    case (Some kv)
    then have "process_line conv l c = apply_key conv (fst kv) (snd kv) c"
      by (simp add: process_line_def split: prod.splits)
    then show ?thesis using Some by (simp add: List.map_filter_simps Cons.IH)
  qed
qed

lemma load_loop_assignments:
  "load_loop conv input c =
     foldl (\<lambda>c kv. apply_key conv (fst kv) (snd kv) c) c (assignments input)"
  by (simp add: load_loop_lines foldl_process_lines assignments_def)

lemma foldl_field:
  assumes "\<And>k v c. f (apply_key conv k v c) = (if hits k v then g v else f c)"
  shows "f (foldl (\<lambda>c kv. apply_key conv (fst kv) (snd kv) c) c kvs) =
           (case last_assigned hits kvs of None \<Rightarrow> f c | Some v \<Rightarrow> g v)"
proof (induction kvs rule: rev_induct)
  case Nil
  show ?case by (simp add: last_assigned_def)
next
  case (snoc kv kvs)
  show ?case
  proof (cases "hits (fst kv) (snd kv)")
    case True
    obtain x xs where xs: "filter (\<lambda>kv. hits (fst kv) (snd kv)) kvs @ [kv] = x # xs"
      by (cases "filter (\<lambda>kv. hits (fst kv) (snd kv)) kvs @ [kv]") auto
    have "last (x # xs) = kv" using xs by (metis last_snoc)
    then have "last_assigned hits (kvs @ [kv]) = Some (snd kv)"
      using True xs by (simp add: last_assigned_def)
    then show ?thesis using True assms by simp
  next
    case False
    then have "last_assigned hits (kvs @ [kv]) = last_assigned hits kvs"
      by (simp add: last_assigned_def)
    then show ?thesis using False assms snoc.IH by simp
  qed
qed

lemma foldl_untouched:
  assumes "\<And>k v c. f (apply_key conv k v c) = f c"
  shows "f (foldl (\<lambda>c kv. apply_key conv (fst kv) (snd kv) c) c kvs) = f c"
  by (induction kvs rule: rev_induct) (simp_all add: assms)

lemma apply_key_scalar:
  "diceId (apply_key conv k v c) = (if k = ''diceId'' then strncpy_bytes 15 v @ [NUL] else diceId c)"
  "x_background (apply_key conv k v c) = (if k = ''x_background'' then ucast (strtoul0 v) else x_background c)"
  "y_background (apply_key conv k v c) = (if k = ''y_background'' then ucast (strtoul0 v) else y_background c)"
  "z_background (apply_key conv k v c) = (if k = ''z_background'' then ucast (strtoul0 v) else z_background c)"
  "entang_ab1_color (apply_key conv k v c) =
     (if k = ''entang_ab1_color'' then ucast (strtoul0 v) else entang_ab1_color c)"
  "entang_ab2_color (apply_key conv k v c) =
     (if k = ''entang_ab2_color'' then ucast (strtoul0 v) else entang_ab2_color c)"
  "rssiLimit (apply_key conv k v c) = (if k = ''rssiLimit'' then word_of_int (atoi v) else rssiLimit c)"
  "isSMD (apply_key conv k v c) = (if k = ''isSMD'' then parseBool v else isSMD c)"
  "isNano (apply_key conv k v c) = (if k = ''isNano'' then parseBool v else isNano c)"
  "alwaysSeven (apply_key conv k v c) = (if k = ''alwaysSeven'' then parseBool v else alwaysSeven c)"
  "randomSwitchPoint (apply_key conv k v c) =
     (if k = ''randomSwitchPoint'' then word_of_int (atoi v) else randomSwitchPoint c)"
  "tumbleConstant (apply_key conv k v c) =
     (if k = ''tumbleConstant'' then atof conv v else tumbleConstant c)"
  "deepSleepTimeout (apply_key conv k v c) =
     (if k = ''deepSleepTimeout'' then strtoul0 v else deepSleepTimeout c)"
  "checksum (apply_key conv k v c) = (if k = ''checksum'' then word_of_int (atoi v) else checksum c)"
  by (simp_all add: apply_key_def split: option.splits)

lemma apply_key_mac:
  "deviceA_mac (apply_key conv k v c) =
     (if k = ''deviceA_mac'' \<and> parseMacAddress v \<noteq> None then the (parseMacAddress v)
      else deviceA_mac c)"
  "deviceB1_mac (apply_key conv k v c) =
     (if k = ''deviceB1_mac'' \<and> parseMacAddress v \<noteq> None then the (parseMacAddress v)
      else deviceB1_mac c)"
  "deviceB2_mac (apply_key conv k v c) =
     (if k = ''deviceB2_mac'' \<and> parseMacAddress v \<noteq> None then the (parseMacAddress v)
      else deviceB2_mac c)"
  by (auto simp: apply_key_def split: option.splits)

lemma apply_key_padding:
  "pad_mid (apply_key conv k v c) = pad_mid c"
  "pad_tail (apply_key conv k v c) = pad_tail c"
  by (simp_all add: apply_key_def split: option.splits)

lemma decoded_field:
  assumes "\<And>k v c. f (apply_key conv k v c) = (if hits k v then g v else f c)"
  shows "f (load_loop conv input c) = decoded hits g (f c) (assignments input)"
  by (simp only: load_loop_assignments decoded_def foldl_field [of f conv hits g, OF assms])

lemma untouched_field:
  assumes "\<And>k v c. f (apply_key conv k v c) = f c"
  shows "f (load_loop conv input c) = f c"
  by (simp only: load_loop_assignments foldl_untouched [of f conv, OF assms])

text \<open>
  C8 (as amended). \<^verbatim>\<open>load()\<close> reads the file in pieces, each of which ends at a line
  feed or after 127 bytes (\<open>file_lines\<close>): a line of more than 127 bytes is read as
  several pieces, and what follows the first 127 bytes of a comment is a piece of its
  own. A piece that is not skipped assigns a value to its key (\<open>assignments\<close>). After
  \<^verbatim>\<open>load()\<close> on a file that opens, whether it succeeds or not, each field that some piece
  assigns holds the value decoded from the last such piece (for a MAC address: the last
  piece whose value parses), whatever the record held before; each field that no piece
  assigns, and the padding, is what it was before the call.
\<close>

theorem C8_load_replaces_assigned_fields:
  assumes "file_text fs filename = Some bytes"
    and "kvs = assignments bytes"
    and "c = config_of s"
    and "c' = config_of (snd (load conv fs filename s))"
  shows
    "diceId c' = decoded (\<lambda>k v. k = ''diceId'') (\<lambda>v. strncpy_bytes 15 v @ [NUL]) (diceId c) kvs \<and>
     deviceA_mac c' = decoded (\<lambda>k v. k = ''deviceA_mac'' \<and> parseMacAddress v \<noteq> None)
       (\<lambda>v. the (parseMacAddress v)) (deviceA_mac c) kvs \<and>
     deviceB1_mac c' = decoded (\<lambda>k v. k = ''deviceB1_mac'' \<and> parseMacAddress v \<noteq> None)
       (\<lambda>v. the (parseMacAddress v)) (deviceB1_mac c) kvs \<and>
     deviceB2_mac c' = decoded (\<lambda>k v. k = ''deviceB2_mac'' \<and> parseMacAddress v \<noteq> None)
       (\<lambda>v. the (parseMacAddress v)) (deviceB2_mac c) kvs \<and>
     x_background c' = decoded (\<lambda>k v. k = ''x_background'') (\<lambda>v. ucast (strtoul0 v)) (x_background c) kvs \<and>
     y_background c' = decoded (\<lambda>k v. k = ''y_background'') (\<lambda>v. ucast (strtoul0 v)) (y_background c) kvs \<and>
     z_background c' = decoded (\<lambda>k v. k = ''z_background'') (\<lambda>v. ucast (strtoul0 v)) (z_background c) kvs \<and>
     entang_ab1_color c' = decoded (\<lambda>k v. k = ''entang_ab1_color'') (\<lambda>v. ucast (strtoul0 v))
       (entang_ab1_color c) kvs \<and>
     entang_ab2_color c' = decoded (\<lambda>k v. k = ''entang_ab2_color'') (\<lambda>v. ucast (strtoul0 v))
       (entang_ab2_color c) kvs \<and>
     rssiLimit c' = decoded (\<lambda>k v. k = ''rssiLimit'') (\<lambda>v. word_of_int (atoi v)) (rssiLimit c) kvs \<and>
     isSMD c' = decoded (\<lambda>k v. k = ''isSMD'') parseBool (isSMD c) kvs \<and>
     isNano c' = decoded (\<lambda>k v. k = ''isNano'') parseBool (isNano c) kvs \<and>
     alwaysSeven c' = decoded (\<lambda>k v. k = ''alwaysSeven'') parseBool (alwaysSeven c) kvs \<and>
     randomSwitchPoint c' = decoded (\<lambda>k v. k = ''randomSwitchPoint'') (\<lambda>v. word_of_int (atoi v))
       (randomSwitchPoint c) kvs \<and>
     tumbleConstant c' = decoded (\<lambda>k v. k = ''tumbleConstant'') (atof conv) (tumbleConstant c) kvs \<and>
     deepSleepTimeout c' = decoded (\<lambda>k v. k = ''deepSleepTimeout'') strtoul0 (deepSleepTimeout c) kvs \<and>
     checksum c' = decoded (\<lambda>k v. k = ''checksum'') (\<lambda>v. word_of_int (atoi v)) (checksum c) kvs \<and>
     pad_mid c' = pad_mid c \<and> pad_tail c' = pad_tail c"
proof -
  have c': "c' = load_loop conv bytes c"
    using assms(1,3,4) by (simp add: load_def Let_def setError_def)
  show ?thesis
    unfolding c' assms(2)
    by (intro conjI decoded_field untouched_field apply_key_scalar apply_key_mac apply_key_padding)
qed

theorem C8_witness:
  "assignments partial_file = [(''rssiLimit'', ''-60'')] \<and>
   sint (rssiLimit (config_of (snd (load (\<lambda>t. 0) (store_of [] [''/c.txt'' \<mapsto> partial_file]) ''/c.txt''
      (new_manager zero_object))))) = - 60 \<and>
   diceId (config_of (snd (load (\<lambda>t. 0) (store_of [] [''/c.txt'' \<mapsto> partial_file]) ''/c.txt''
      (new_manager zero_object)))) = diceId (config_of (new_manager zero_object)) \<and>
   isSMD (config_of (snd (load (\<lambda>t. 0) (store_of [] [''/c.txt'' \<mapsto> partial_file]) ''/c.txt''
      (new_manager zero_object)))) = isSMD (config_of (new_manager zero_object)) \<and>
   deepSleepTimeout (config_of (snd (load (\<lambda>t. 0) (store_of [] [''/c.txt'' \<mapsto> partial_file]) ''/c.txt''
      (new_manager zero_object)))) = deepSleepTimeout (config_of (new_manager zero_object))"
proof -
  let ?fs = "store_of [] [''/c.txt'' \<mapsto> partial_file]"
  let ?s = "new_manager zero_object"
  let ?c' = "config_of (snd (load (\<lambda>t. 0) ?fs ''/c.txt'' ?s))"
  have o: "file_text ?fs ''/c.txt'' = Some partial_file" by (simp add: store_of_def)
  have a: "assignments partial_file = [(''rssiLimit'', ''-60'')]" by code_simp
  note r = C8_load_replaces_assigned_fields [OF o refl refl refl]
  have v: "sint (word_of_int (atoi ''-60'') :: u8) = - 60" by code_simp
  have "rssiLimit ?c' = word_of_int (atoi ''-60'')"
    using r by (simp add: a decoded_def last_assigned_def)
  then have r1: "sint (rssiLimit ?c') = - 60" using v by simp
  have r2: "diceId ?c' = diceId (config_of ?s)"
    using r by (simp add: a decoded_def last_assigned_def)
  have r3: "isSMD ?c' = isSMD (config_of ?s)"
    using r by (simp add: a decoded_def last_assigned_def)
  have r4: "deepSleepTimeout ?c' = deepSleepTimeout (config_of ?s)"
    using r by (simp add: a decoded_def last_assigned_def)
  show ?thesis using a r1 r2 r3 r4 by (intro conjI)
qed

text \<open>
  C8 as stated has every field come from the file after a successful load. A file that
  assigns only \<^verbatim>\<open>rssiLimit\<close> loads successfully into two records that differ in
  \<^verbatim>\<open>isSMD\<close>, and they still differ afterwards.
\<close>

theorem C8_counterexample:
  "fst (load (\<lambda>t. 0) (store_of [] [''/c.txt'' \<mapsto> partial_file]) ''/c.txt'' (new_manager zero_object)) \<and>
   fst (load (\<lambda>t. 0) (store_of [] [''/c.txt'' \<mapsto> partial_file]) ''/c.txt''
     ((new_manager zero_object)\<lparr>config_of := (initDefaultConfig zero_object)\<lparr>isSMD := True\<rparr>\<rparr>)) \<and>
   isSMD (config_of (snd (load (\<lambda>t. 0) (store_of [] [''/c.txt'' \<mapsto> partial_file]) ''/c.txt''
     (new_manager zero_object)))) \<noteq>
   isSMD (config_of (snd (load (\<lambda>t. 0) (store_of [] [''/c.txt'' \<mapsto> partial_file]) ''/c.txt''
     ((new_manager zero_object)\<lparr>config_of := (initDefaultConfig zero_object)\<lparr>isSMD := True\<rparr>\<rparr>))))"
  by code_simp


section \<open>Decoding what was encoded\<close>
























lemma trim_Nil: "trim [] = []"
  by (simp add: trim_def)

lemma trim_id:
  assumes "str \<noteq> []" and "\<not> isspace (hd str)" and "\<not> isspace (last str)"
  shows "trim str = str"
proof -
  obtain a as where s: "str = a # as" using assms(1) by (cases str) auto
  have a: "\<not> isspace a" using assms(2) s by simp
  have "rev (dropWhile isspace (rev as)) = as"
  proof (cases as rule: rev_cases)
    case Nil
    then show ?thesis by simp
  next
    case (snoc bs b)
    then have "\<not> isspace b" using assms(3) s by simp
    then show ?thesis using snoc by simp
  qed
  then show ?thesis using s a by (simp add: trim_def)
qed



lemma cstr_id: "NUL \<notin> set str \<Longrightarrow> cstr str = str"
  by (auto simp: cstr_def takeWhile_eq_all_conv)



lemma split_line_assign_any:
  assumes "key \<noteq> []" and "\<forall>ch\<in>set key. \<not> isspace ch \<and> ch \<noteq> NUL \<and> ch \<noteq> CHR ''=''"
    and "hd key \<noteq> CHR ''#''"
  shows "\<exists>w. split_line (assign_line key t) = Some (key, w) \<and>
           (NUL \<notin> set t \<and> (t = [] \<or> \<not> isspace (hd t) \<and> \<not> isspace (last t)) \<longrightarrow> w = t)"
proof -
  let ?eq = "CHR ''=''"
  let ?t2 = "if t \<noteq> [] \<and> last t = CHR 0x0D then butlast t else t"
  let ?u = "cstr ?t2"
  let ?w = "rev (dropWhile isspace (rev ?u))"
  obtain k0 ks where key: "key = k0 # ks" using assms(1) by (cases key) auto
  have k0: "\<not> isspace k0" "k0 \<noteq> CHR ''#''" using assms(2,3) key by simp_all
  have eqs: "\<not> isspace ?eq" "?eq \<noteq> NUL" "?eq \<noteq> CHR 0x0D" by (simp_all add: isspace_def)
  have b2: "(if assign_line key t \<noteq> [] \<and> last (assign_line key t) = CHR 0x0D
             then butlast (assign_line key t) else assign_line key t) = key @ ?eq # ?t2"
    using eqs(3) by (cases t rule: rev_cases) (auto simp: assign_line_def butlast_append)
  have nk: "\<forall>ch\<in>set key. ch \<noteq> NUL" using assms(2) by blast
  have cs: "cstr (key @ ?eq # ?t2) = key @ ?eq # ?u"
    using nk by (simp add: cstr_def takeWhile_append2)
  have tr: "trim (key @ ?eq # ?u) = key @ ?eq # ?w"
  proof -
    have "dropWhile isspace (rev ?u @ ?eq # rev ks) = dropWhile isspace (rev ?u) @ ?eq # rev ks"
      using eqs(1) by (rule dropWhile_append3)
    then have "rev (dropWhile isspace (rev (ks @ ?eq # ?u))) = ks @ ?eq # ?w" by simp
    then show ?thesis using key k0(1) by (simp add: trim_def)
  qed
  have ne: "\<forall>ch\<in>set key. ch \<noteq> ?eq" using assms(2) by blast
  have tk: "takeWhile (\<lambda>ch. ch \<noteq> ?eq) (key @ ?eq # ?w) = key"
    using ne by (simp add: takeWhile_append2)
  have dk: "dropWhile (\<lambda>ch. ch \<noteq> ?eq) (key @ ?eq # ?w) = ?eq # ?w"
    using ne by (simp add: dropWhile_append2)
  have lk: "\<not> isspace (last key)" using assms(1,2) by simp
  have trk: "trim key = key" using assms(1) k0(1) lk key by (intro trim_id) simp_all
  have hd: "hd (key @ ?eq # ?w) \<noteq> CHR ''#''" using key k0(2) by simp
  have res: "split_line (assign_line key t) = Some (key, trim ?w)"
    unfolding split_line_def Let_def b2 cs tr tk dk trk using hd by simp
  have "trim ?w = t" if c: "NUL \<notin> set t" "t = [] \<or> \<not> isspace (hd t) \<and> \<not> isspace (last t)"
  proof (cases "t = []")
    case True
    then show ?thesis by (simp add: cstr_def trim_def)
  next
    case False
    then have l: "\<not> isspace (hd t)" "\<not> isspace (last t)" using c(2) by simp_all
    then have "last t \<noteq> CHR 0x0D" by (auto simp: isspace_def)
    then have "?t2 = t" by simp
    then have u: "?u = t" using c(1) by (simp add: cstr_id)
    have "rev (dropWhile isspace (rev t)) = t"
      using False l(2) by (cases t rule: rev_cases) auto
    then show ?thesis using u False l by (simp add: trim_id)
  qed
  then show ?thesis using res by blast
qed




lemma process_assign_any:
  assumes "key \<noteq> []" and "\<forall>ch\<in>set key. \<not> isspace ch \<and> ch \<noteq> NUL \<and> ch \<noteq> CHR ''=''"
    and "hd key \<noteq> CHR ''#''"
  shows "\<exists>w. process_line conv (assign_line key t) c = apply_key conv key w c"
  using split_line_assign_any [OF assms, of t] by (auto simp: process_line_def)





























end
